theory Spec2Isabelle
  imports Complex_Main "HOL-Library.Word"
begin

section \<open>Numbers and vectors\<close>

text \<open>
  The pipeline of \<^verbatim>\<open>hdtSkinnedMeshAlgorithm.cpp\<close> computes on \<^verbatim>\<open>float\<close> and
  on Bullet's \<^verbatim>\<open>btVector3\<close>. The scalar type is a type variable \<open>'f\<close> here. Its
  arithmetic (\<open>+\<close>, \<open>*\<close>, unary \<open>-\<close>) carries no algebraic law, so every statement
  below holds for whatever rounding the machine applies. Where the code compares two
  scalars the sort \<open>linorder\<close> is used: the order of the floats that are not NaN.
\<close>

datatype 'f btVector3 = Vec3 (vx: 'f) (vy: 'f) (vz: 'f)

definition vneg :: "'f::uminus btVector3 \<Rightarrow> 'f btVector3" where
  \<comment> \<open>unary \<^verbatim>\<open>operator-\<close> of \<^verbatim>\<open>btVector3\<close>\<close>
  "vneg v = Vec3 (- vx v) (- vy v) (- vz v)"

definition vadd :: "'f::plus btVector3 \<Rightarrow> 'f btVector3 \<Rightarrow> 'f btVector3" where
  \<comment> \<open>\<^verbatim>\<open>operator+\<close> (and \<^verbatim>\<open>+=\<close>) of \<^verbatim>\<open>btVector3\<close>\<close>
  "vadd u v = Vec3 (vx u + vx v) (vy u + vy v) (vz u + vz v)"

definition vscale :: "'f::times btVector3 \<Rightarrow> 'f \<Rightarrow> 'f btVector3" where
  \<comment> \<open>\<^verbatim>\<open>operator*(btVector3, float)\<close>\<close>
  "vscale v s = Vec3 (vx v * s) (vy v * s) (vz v * s)"

section \<open>Contact results and the bounded result sink\<close>

text \<open>
  \<^verbatim>\<open>CollisionResult\<close>, with the six fields the source reads and writes. A
  \<^verbatim>\<open>Collider*\<close> is a value of the type variable \<open>'c\<close>.
\<close>

record ('f, 'c) CollisionResult =
  posA :: "'f btVector3"
  posB :: "'f btVector3"
  normOnB :: "'f btVector3"
  colliderA :: 'c
  colliderB :: 'c
  depth :: 'f

text \<open>
  The two members of \<^verbatim>\<open>CollisionCheckBase1\<close> that \<^verbatim>\<open>addResult\<close> touches.
  \<^verbatim>\<open>numResults\<close> is a \<^verbatim>\<open>std::atomic_long\<close>; the code is built with MSVC (it
  calls \<^verbatim>\<open>concurrency::parallel_for_each\<close>), where \<^verbatim>\<open>long\<close> has 32 bits, and
  \<^verbatim>\<open>fetch_add\<close> wraps around. \<^verbatim>\<open>results\<close> is a raw pointer: the memory it
  addresses is a function from the signed element offset to the element stored there,
  the array proper being the offsets \<open>0 \<le> i < MaxCollisionCount\<close>.
\<close>

record ('f, 'c) sink =
  numResults :: "32 word"
  results :: "int \<Rightarrow> ('f, 'c) CollisionResult"

definition sink_init :: "(int \<Rightarrow> ('f, 'c) CollisionResult) \<Rightarrow> ('f, 'c) sink" where
  \<comment> \<open>the constructor of \<^verbatim>\<open>CollisionCheckBase1\<close>: \<^verbatim>\<open>results = r; numResults = 0;\<close>\<close>
  "sink_init r = \<lparr>numResults = 0, results = r\<rparr>"

definition addResult_plain ::
  "int \<Rightarrow> ('f, 'c) sink \<Rightarrow> ('f, 'c) CollisionResult \<Rightarrow> bool \<times> ('f, 'c) sink" where
  \<comment> \<open>\<^verbatim>\<open>CollisionCheckBase2<T, false>::addResult\<close>\<close>
  "addResult_plain MaxCollisionCount s res =
     (let p = sint (numResults s);
          s1 = s\<lparr>numResults := numResults s + 1\<rparr>
      in if p < MaxCollisionCount
         then (True, s1\<lparr>results := (results s1)(p := res)\<rparr>)
         else (False, s1))"

definition addResult_swap ::
  "int \<Rightarrow> ('f::uminus, 'c) sink \<Rightarrow> ('f, 'c) CollisionResult \<Rightarrow> bool \<times> ('f, 'c) sink" where
  \<comment> \<open>\<^verbatim>\<open>CollisionCheckBase2<T, true>::addResult\<close>: six field assignments to \<^verbatim>\<open>results[p]\<close>\<close>
  "addResult_swap MaxCollisionCount s res =
     (let p = sint (numResults s);
          s1 = s\<lparr>numResults := numResults s + 1\<rparr>
      in if p < MaxCollisionCount
         then (True, s1\<lparr>results := (results s1)(p := (results s1 p)
                 \<lparr>posA := posB res,
                  posB := posA res,
                  colliderA := colliderB res,
                  colliderB := colliderA res,
                  normOnB := vneg (normOnB res),
                  depth := depth res\<rparr>)\<rparr>)
         else (False, s1))"

definition addResult ::
  "bool \<Rightarrow> int \<Rightarrow> ('f::uminus, 'c) sink \<Rightarrow> ('f, 'c) CollisionResult \<Rightarrow> bool \<times> ('f, 'c) sink" where
  \<comment> \<open>the template parameter \<^verbatim>\<open>SwapResults\<close> selects the specialisation\<close>
  "addResult SwapResults MaxCollisionCount s res =
     (if SwapResults then addResult_swap MaxCollisionCount s res
      else addResult_plain MaxCollisionCount s res)"

text \<open>A sequence of calls on one sink, in order, with the value each call returns.\<close>

fun addResults ::
  "bool \<Rightarrow> int \<Rightarrow> ('f::uminus, 'c) sink \<Rightarrow> ('f, 'c) CollisionResult list
     \<Rightarrow> bool list \<times> ('f, 'c) sink" where
  "addResults sw M s [] = ([], s)"
| "addResults sw M s (x # xs) =
     (case addResult sw M s x of (b, s1) \<Rightarrow>
        (case addResults sw M s1 xs of (bs, s2) \<Rightarrow> (b # bs, s2)))"

section \<open>Geometry checkers\<close>

text \<open>
  \<^verbatim>\<open>VertexPos\<close> (read through \<^verbatim>\<open>pos()\<close> and \<^verbatim>\<open>marginMultiplier()\<close>), the two
  \<^verbatim>\<open>ShapeProp\<close> structs (that of \<^verbatim>\<open>PerTriangleShape\<close> adds \<^verbatim>\<open>penetration\<close>) and
  \<^verbatim>\<open>Collider\<close>. Colliders are reached through pointers: \<open>col\<close> below is the memory,
  giving the collider a pointer refers to. Vertex buffers are raw pointers
  (\<^verbatim>\<open>VertexPos*\<close>), hence functions from the index.
\<close>

record 'f VertexPos =
  pos :: "'f btVector3"
  marginMultiplier :: 'f

record 'f ShapeProp =
  margin :: 'f

record 'f TriangleShapeProp = "'f ShapeProp" +
  penetration :: 'f

record 'f Collider =
  vertex :: nat
  vertices :: "nat \<Rightarrow> nat"
  flexible :: 'f

text \<open>
  \<^verbatim>\<open>checkSphereSphere\<close>, \<^verbatim>\<open>checkSphereTriangle\<close> and the class \<^verbatim>\<open>CheckTriangle\<close>
  are declared in \<^verbatim>\<open>hdtCollider.h\<close>, which is not among the sources: they are
  parameters. A checker receives the result object by reference, so it takes the
  result's old content and returns the new one beside its \<^verbatim>\<open>bool\<close>.
\<close>

type_synonym ('f, 'c) checker =
  "'c \<Rightarrow> 'c \<Rightarrow> ('f, 'c) CollisionResult \<Rightarrow> bool \<times> ('f, 'c) CollisionResult"

definition checkCollide_PerVertexShape ::
  "('f::times btVector3 \<Rightarrow> 'f btVector3 \<Rightarrow> 'f \<Rightarrow> 'f \<Rightarrow> ('f, 'c) CollisionResult
      \<Rightarrow> bool \<times> ('f, 'c) CollisionResult)
   \<Rightarrow> ('c \<Rightarrow> 'f Collider) \<Rightarrow> (nat \<Rightarrow> 'f VertexPos) \<Rightarrow> (nat \<Rightarrow> 'f VertexPos)
   \<Rightarrow> ('f, 'x) ShapeProp_scheme \<Rightarrow> ('f, 'y) ShapeProp_scheme \<Rightarrow> ('f, 'c) checker" where
  \<comment> \<open>\<^verbatim>\<open>CollisionChecker<PerVertexShape, SwapResults>::checkCollide\<close>\<close>
  "checkCollide_PerVertexShape checkSphereSphere col v0 v1 sp0 sp1 a b res =
     (let s0 = v0 (vertex (col a));
          r0 = marginMultiplier s0 * margin sp0;
          s1 = v0 (vertex (col a));
          r1 = marginMultiplier s1 * margin sp0
      in case checkSphereSphere (pos s0) (pos s1) r0 r1 res of
           (ret, res1) \<Rightarrow> (ret, res1\<lparr>colliderA := a, colliderB := b\<rparr>))"

definition checkCollide_PerTriangleShape ::
  "('f::{plus,times,inverse,numeral} btVector3 \<Rightarrow> 'f btVector3 \<Rightarrow> 'f btVector3 \<Rightarrow> 'f \<Rightarrow> 'f \<Rightarrow> 'tri)
   \<Rightarrow> ('tri \<Rightarrow> bool)
   \<Rightarrow> ('f btVector3 \<Rightarrow> 'f \<Rightarrow> 'tri \<Rightarrow> ('f, 'c) CollisionResult
        \<Rightarrow> bool \<times> ('f, 'c) CollisionResult)
   \<Rightarrow> ('c \<Rightarrow> 'f Collider) \<Rightarrow> (nat \<Rightarrow> 'f VertexPos) \<Rightarrow> (nat \<Rightarrow> 'f VertexPos)
   \<Rightarrow> ('f, 'x) ShapeProp_scheme \<Rightarrow> ('f, 'y) TriangleShapeProp_scheme \<Rightarrow> ('f, 'c) checker" where
  \<comment> \<open>\<^verbatim>\<open>CollisionChecker<PerTriangleShape, SwapResults>::checkCollide\<close>;
      \<open>CheckTriangle\<close> is the constructor of \<^verbatim>\<open>CheckTriangle\<close>, \<open>valid\<close> its member\<close>
  "checkCollide_PerTriangleShape CheckTriangle valid checkSphereTriangle col v0 v1 sp0 sp1 a b res =
     (let s = v0 (vertex (col a));
          r = marginMultiplier s * margin sp0;
          p0 = v1 (vertices (col b) 0);
          p1 = v1 (vertices (col b) 1);
          p2 = v1 (vertices (col b) 2);
          margin0 = (marginMultiplier p0 + marginMultiplier p1 + marginMultiplier p2) / 3;
          penetration0 = penetration sp1 * margin0;
          margin1 = margin0 * margin sp1;
          tri = CheckTriangle (pos p0) (pos p1) (pos p2) margin1 penetration0
      in if \<not> valid tri then (False, res)
         else case checkSphereTriangle (pos s) r tri res of
                (ret, res1) \<Rightarrow> (ret, res1\<lparr>colliderA := a, colliderB := b\<rparr>))"

text \<open>
  Modelled from the spec: \<^verbatim>\<open>checkSphereSphere\<close>, whose code is missing. Section 4.1:
  overlap iff \<open>|s1 - s0| < r0 + r1\<close>, depth \<open>|s1 - s0| - (r0 + r1)\<close>, normal the unit
  vector from A to B; section 7: a coincident pair of spheres is treated as not
  overlapping. The spec does not say where the two contact positions lie; they are left
  as they were. It is used only to run the checker above on concrete spheres.
\<close>

definition vsub :: "'f::minus btVector3 \<Rightarrow> 'f btVector3 \<Rightarrow> 'f btVector3" where
  "vsub u v = Vec3 (vx u - vx v) (vy u - vy v) (vz u - vz v)"

definition vlen :: "real btVector3 \<Rightarrow> real" where
  "vlen v = sqrt (vx v * vx v + vy v * vy v + vz v * vz v)"

definition checkSphereSphere_spec ::
  "real btVector3 \<Rightarrow> real btVector3 \<Rightarrow> real \<Rightarrow> real \<Rightarrow> (real, 'c) CollisionResult
     \<Rightarrow> bool \<times> (real, 'c) CollisionResult" where
  "checkSphereSphere_spec s0 s1 r0 r1 res =
     (let d = vlen (vsub s1 s0)
      in if d \<noteq> 0 \<and> d < r0 + r1
         then (True, res\<lparr>normOnB := vscale (vsub s1 s0) (1 / d), depth := d - (r0 + r1)\<rparr>)
         else (False, res))"

section \<open>Skinned bodies, the merge buffer and the manifold emitter\<close>

text \<open>
  A skinned bone, the part of \<^verbatim>\<open>SkinnedMeshBody\<close> and of \<^verbatim>\<open>SkinnedMeshShape\<close> that
  the pipeline reads. The virtual methods of body and shape, whose code is elsewhere,
  are fields holding functions. \<open>'rb\<close> is the type of pointers to rigid bodies
  (\<^verbatim>\<open>SkinnedBone::ptr\<close>).
\<close>

record ('f, 'rb) SkinnedBone =
  weightThreshold :: 'f
  isKinematic :: bool
  ptr :: 'rb

record ('f, 'rb) SkinnedMeshBody =
  m_skinnedBones :: "('f, 'rb) SkinnedBone list"
  canCollideWith :: "'rb \<Rightarrow> bool"

record ('f, 'c, 'rb) SkinnedMeshShape =
  m_owner :: "('f, 'rb) SkinnedMeshBody"
  getBonePerCollider :: int
  getColliderBoneWeight :: "'c \<Rightarrow> nat \<Rightarrow> 'f"
  getColliderBoneIndex :: "'c \<Rightarrow> nat \<Rightarrow> nat"

text \<open>
  A cell of \<^verbatim>\<open>MergeBuffer\<close>; \<open>pos0\<close> and \<open>pos1\<close> are \<^verbatim>\<open>pos[0]\<close> and \<^verbatim>\<open>pos[1]\<close>.
  The buffer is the table that \<^verbatim>\<open>get(i, j)\<close> indexes.
\<close>

record 'f MergeCell =
  weight :: 'f
  normal :: "'f btVector3"
  pos0 :: "'f btVector3"
  pos1 :: "'f btVector3"

type_synonym 'f MergeBuffer = "nat \<Rightarrow> nat \<Rightarrow> 'f MergeCell"

definition alloc :: "'f::zero MergeBuffer" where
  \<comment> \<open>Modelled from the spec: \<^verbatim>\<open>MergeBuffer::alloc\<close> is not among the sources; a cell
      without contributions has weight exactly zero (sections 3 and 8)\<close>
  "alloc = (\<lambda>i j. \<lparr>weight = 0, normal = Vec3 0 0 0, pos0 = Vec3 0 0 0, pos1 = Vec3 0 0 0\<rparr>)"

definition std_max :: "'f::ord \<Rightarrow> 'f \<Rightarrow> 'f" where
  \<comment> \<open>\<^verbatim>\<open>std::max(a, b)\<close> is \<^verbatim>\<open>(a < b) ? b : a\<close>\<close>
  "std_max a b = (if a < b then b else a)"

definition std_min :: "'f::ord \<Rightarrow> 'f \<Rightarrow> 'f" where
  \<comment> \<open>\<^verbatim>\<open>std::min(a, b)\<close> is \<^verbatim>\<open>(b < a) ? b : a\<close>\<close>
  "std_min a b = (if b < a then b else a)"

datatype error = OutOfBounds

definition doMerge_jb ::
  "('f::{linorder,plus,times}, 'c, 'rb) SkinnedMeshShape \<Rightarrow> ('f, 'c, 'rb) SkinnedMeshShape
   \<Rightarrow> ('f, 'c) CollisionResult \<Rightarrow> 'f \<Rightarrow> nat \<Rightarrow> nat \<Rightarrow> 'f MergeBuffer \<Rightarrow> 'f MergeBuffer" where
  \<comment> \<open>the body of the loop over \<^verbatim>\<open>jb\<close>\<close>
  "doMerge_jb a b res flexible0 boneIdx0 jb buf =
     (let w1 = getColliderBoneWeight b (colliderB res) jb;
          boneIdx1 = getColliderBoneIndex b (colliderB res) jb
      in if w1 \<le> weightThreshold (m_skinnedBones (m_owner b) ! boneIdx1) then buf
         else if isKinematic (m_skinnedBones (m_owner a) ! boneIdx0)
                 \<and> isKinematic (m_skinnedBones (m_owner b) ! boneIdx1) then buf
         else
           (let w = flexible0 * depth res;
                w2 = w * w;
                c = buf boneIdx0 boneIdx1
            in buf(boneIdx0 := (buf boneIdx0)(boneIdx1 := c
                 \<lparr>weight := weight c + w2,
                  normal := vadd (normal c) (vscale (vscale (normOnB res) w) w2),
                  pos0 := vadd (pos0 c) (vscale (posA res) w2),
                  pos1 := vadd (pos1 c) (vscale (posB res) w2)\<rparr>))))"

definition doMerge_ib ::
  "('f::{linorder,plus,times}, 'c, 'rb) SkinnedMeshShape \<Rightarrow> ('f, 'c, 'rb) SkinnedMeshShape
   \<Rightarrow> ('f, 'c) CollisionResult \<Rightarrow> 'f \<Rightarrow> nat \<Rightarrow> 'f MergeBuffer \<Rightarrow> 'f MergeBuffer" where
  \<comment> \<open>the body of the loop over \<^verbatim>\<open>ib\<close>\<close>
  "doMerge_ib a b res flexible0 ib buf =
     (let w0 = getColliderBoneWeight a (colliderA res) ib;
          boneIdx0 = getColliderBoneIndex a (colliderA res) ib
      in if w0 \<le> weightThreshold (m_skinnedBones (m_owner a) ! boneIdx0) then buf
         else fold (doMerge_jb a b res flexible0 boneIdx0)
                [0 ..< nat (getBonePerCollider b)] buf)"

text \<open>
  The loop over the contacts, on the indices still to visit. \<open>collision\<close> is the memory
  the pointer addresses and \<open>len\<close> the number of elements of the array allocated there:
  reading \<^verbatim>\<open>collision[i]\<close> with \<open>i\<close> outside the array is the error \<open>OutOfBounds\<close>.
\<close>

fun doMerge_loop ::
  "'f::{linorder,plus,times,uminus} \<Rightarrow> ('c \<Rightarrow> 'f Collider) \<Rightarrow> int
   \<Rightarrow> ('f, 'c, 'rb) SkinnedMeshShape \<Rightarrow> ('f, 'c, 'rb) SkinnedMeshShape
   \<Rightarrow> (int \<Rightarrow> ('f, 'c) CollisionResult) \<Rightarrow> nat list \<Rightarrow> 'f MergeBuffer
   \<Rightarrow> error + 'f MergeBuffer" where
  "doMerge_loop FLT_EPSILON col len a b collision [] buf = Inr buf"
| "doMerge_loop FLT_EPSILON col len a b collision (i # rest) buf =
     (if \<not> int i < len then Inl OutOfBounds
      else
        (let res = collision (int i)
         in if depth res \<ge> - FLT_EPSILON then Inr buf
            else
              (let flexible0 = std_max (flexible (col (colliderA res)))
                                       (flexible (col (colliderB res)))
               in if flexible0 < FLT_EPSILON then Inr buf
                  else doMerge_loop FLT_EPSILON col len a b collision rest
                         (fold (doMerge_ib a b res flexible0)
                            [0 ..< nat (getBonePerCollider a)] buf))))"

definition doMerge ::
  "'f::{linorder,plus,times,uminus} \<Rightarrow> ('c \<Rightarrow> 'f Collider) \<Rightarrow> int
   \<Rightarrow> ('f, 'c, 'rb) SkinnedMeshShape \<Rightarrow> ('f, 'c, 'rb) SkinnedMeshShape
   \<Rightarrow> (int \<Rightarrow> ('f, 'c) CollisionResult) \<Rightarrow> int \<Rightarrow> 'f MergeBuffer
   \<Rightarrow> error + 'f MergeBuffer" where
  \<comment> \<open>\<^verbatim>\<open>SkinnedMeshAlgorithm::MergeBuffer::doMerge\<close>:
      \<^verbatim>\<open>for (int i = 0; i < count; ++i)\<close>\<close>
  "doMerge FLT_EPSILON col len a b collision count buf =
     doMerge_loop FLT_EPSILON col len a b collision [0 ..< nat count] buf"

text \<open>
  The merge as section 4.6 of the spec words it, to be compared with the code: the
  contacts taken are those before the first one that is not penetrating or not flexible,
  and each adds to the cell of every eligible bone pair.
\<close>

definition contact_flexible :: "('c \<Rightarrow> 'f::linorder Collider) \<Rightarrow> ('f, 'c) CollisionResult \<Rightarrow> 'f" where
  "contact_flexible col res = max (flexible (col (colliderA res))) (flexible (col (colliderB res)))"

definition eligible_bone_pairs ::
  "('f::linorder, 'c, 'rb) SkinnedMeshShape \<Rightarrow> ('f, 'c, 'rb) SkinnedMeshShape
   \<Rightarrow> ('f, 'c) CollisionResult \<Rightarrow> (nat \<times> nat) list" where
  "eligible_bone_pairs a b res =
     concat (map (\<lambda>ib.
       map (\<lambda>jb. (getColliderBoneIndex a (colliderA res) ib,
                   getColliderBoneIndex b (colliderB res) jb))
         (filter (\<lambda>jb.
            weightThreshold (m_skinnedBones (m_owner b) ! getColliderBoneIndex b (colliderB res) jb)
               < getColliderBoneWeight b (colliderB res) jb
            \<and> \<not> (isKinematic (m_skinnedBones (m_owner a) ! getColliderBoneIndex a (colliderA res) ib)
                  \<and> isKinematic (m_skinnedBones (m_owner b) ! getColliderBoneIndex b (colliderB res) jb)))
           [0 ..< nat (getBonePerCollider b)]))
       (filter (\<lambda>ib.
          weightThreshold (m_skinnedBones (m_owner a) ! getColliderBoneIndex a (colliderA res) ib)
             < getColliderBoneWeight a (colliderA res) ib)
         [0 ..< nat (getBonePerCollider a)]))"

definition accumulate ::
  "('f::{plus,times}, 'c) CollisionResult \<Rightarrow> 'f \<Rightarrow> nat \<times> nat \<Rightarrow> 'f MergeBuffer \<Rightarrow> 'f MergeBuffer" where
  "accumulate res flexible0 bones buf =
     (let w = flexible0 * depth res;
          w2 = w * w;
          cell = buf (fst bones) (snd bones)
      in buf(fst bones := (buf (fst bones))(snd bones :=
           \<lparr>weight = weight cell + w2,
            normal = vadd (normal cell) (vscale (vscale (normOnB res) w) w2),
            pos0 = vadd (pos0 cell) (vscale (posA res) w2),
            pos1 = vadd (pos1 cell) (vscale (posB res) w2)\<rparr>)))"

definition doMerge_spec ::
  "'f::{linorder,plus,times,uminus} \<Rightarrow> ('c \<Rightarrow> 'f Collider)
   \<Rightarrow> ('f, 'c, 'rb) SkinnedMeshShape \<Rightarrow> ('f, 'c, 'rb) SkinnedMeshShape
   \<Rightarrow> (int \<Rightarrow> ('f, 'c) CollisionResult) \<Rightarrow> int \<Rightarrow> 'f MergeBuffer \<Rightarrow> 'f MergeBuffer" where
  "doMerge_spec eps col a b collision count buf =
     fold (\<lambda>res. fold (accumulate res (contact_flexible col res)) (eligible_bone_pairs a b res))
       (takeWhile (\<lambda>res. depth res < - eps \<and> \<not> contact_flexible col res < eps)
          (map (\<lambda>i. collision (int i)) [0 ..< nat count]))
       buf"

text \<open>
  The template \<^verbatim>\<open>processCollision(T0*, T1*, MergeBuffer&, CollisionResult*)\<close>. Its
  \<^verbatim>\<open>checkCollide\<close> is whichever overload the shape types select; it receives the
  array and returns its \<^verbatim>\<open>int\<close> together with the array as it has left it.
\<close>

definition processCollision_T ::
  "(('f, 'c, 'rb) SkinnedMeshShape \<Rightarrow> ('f, 'c, 'rb) SkinnedMeshShape
      \<Rightarrow> (int \<Rightarrow> ('f, 'c) CollisionResult) \<Rightarrow> int \<times> (int \<Rightarrow> ('f, 'c) CollisionResult))
   \<Rightarrow> int \<Rightarrow> 'f::{linorder,plus,times,uminus} \<Rightarrow> ('c \<Rightarrow> 'f Collider)
   \<Rightarrow> ('f, 'c, 'rb) SkinnedMeshShape \<Rightarrow> ('f, 'c, 'rb) SkinnedMeshShape
   \<Rightarrow> 'f MergeBuffer \<Rightarrow> (int \<Rightarrow> ('f, 'c) CollisionResult)
   \<Rightarrow> error + 'f MergeBuffer \<times> (int \<Rightarrow> ('f, 'c) CollisionResult)" where
  "processCollision_T checkCollide MaxCollisionCount FLT_EPSILON col shape0 shape1 merge collision =
     (case checkCollide shape0 shape1 collision of
        (n, collision1) \<Rightarrow>
          (let count = std_min n MaxCollisionCount
           in if count > 0
              then (case doMerge FLT_EPSILON col MaxCollisionCount shape0 shape1 collision1
                           count merge of
                      Inl e \<Rightarrow> Inl e
                    | Inr merge1 \<Rightarrow> Inr (merge1, collision1))
              else Inr (merge, collision1)))"

text \<open>
  The manifold emitter. What it asks of Bullet and of the rigid bodies is a record of
  functions; what it does to the dispatcher is the list of its calls, in order.
\<close>

record ('f, 'rb) bullet =
  invXform :: "'rb \<Rightarrow> 'f btVector3 \<Rightarrow> 'f btVector3"
  fuzzyZero :: "'f btVector3 \<Rightarrow> bool"
  vec_length :: "'f btVector3 \<Rightarrow> 'f"
  normalized :: "'f btVector3 \<Rightarrow> 'f btVector3"
  getFriction :: "'rb \<Rightarrow> 'f"
  getRestitution :: "'rb \<Rightarrow> 'f"
  getRollingFriction :: "'rb \<Rightarrow> 'f"

record 'f btManifoldPoint =
  m_localPointA :: "'f btVector3"
  m_localPointB :: "'f btVector3"
  m_normalWorldOnB :: "'f btVector3"
  m_distance1 :: 'f
  m_positionWorldOnA :: "'f btVector3"
  m_positionWorldOnB :: "'f btVector3"
  m_combinedFriction :: 'f
  m_combinedRestitution :: 'f
  m_combinedRollingFriction :: 'f

datatype ('f, 'rb) dispatcher_call =
  GetNewManifold 'rb 'rb
| AddManifoldPoint 'rb 'rb "'f btManifoldPoint"

definition apply_j ::
  "('f::{linorder,times,uminus,inverse,one}, 'rb) bullet \<Rightarrow> 'f
   \<Rightarrow> ('f, 'rb) SkinnedMeshBody \<Rightarrow> ('f, 'rb) SkinnedMeshBody \<Rightarrow> 'f MergeBuffer
   \<Rightarrow> nat \<Rightarrow> nat \<Rightarrow> ('f, 'rb) dispatcher_call list" where
  \<comment> \<open>the body of the loop over \<^verbatim>\<open>j\<close>: the calls made for the bone pair \<open>(i, j)\<close>\<close>
  "apply_j blt FLT_EPSILON body0 body1 merge i j =
     (if \<not> canCollideWith body0 (ptr (m_skinnedBones body1 ! j)) then []
      else if weight (merge i j) < FLT_EPSILON then []
      else if isKinematic (m_skinnedBones body0 ! i) \<and> isKinematic (m_skinnedBones body1 ! j)
      then []
      else
        (let rb0 = ptr (m_skinnedBones body0 ! i);
             rb1 = ptr (m_skinnedBones body1 ! j)
         in if rb0 = rb1 then []
            else
              (let c = merge i j;
                   invWeight = 1 / weight c;
                   worldA = vscale (pos0 c) invWeight;
                   worldB = vscale (pos1 c) invWeight;
                   localA = invXform blt rb0 worldA;
                   localB = invXform blt rb1 worldB;
                   normal0 = vscale (normal c) invWeight
               in if fuzzyZero blt normal0 then [GetNewManifold rb0 rb1]
                  else
                    (let depth0 = - vec_length blt normal0;
                         normal1 = vneg (normalized blt normal0)
                     in if depth0 \<ge> - FLT_EPSILON then [GetNewManifold rb0 rb1]
                        else [GetNewManifold rb0 rb1,
                              AddManifoldPoint rb0 rb1
                                \<lparr>m_localPointA = localA,
                                 m_localPointB = localB,
                                 m_normalWorldOnB = normal1,
                                 m_distance1 = depth0,
                                 m_positionWorldOnA = worldA,
                                 m_positionWorldOnB = worldB,
                                 m_combinedFriction = getFriction blt rb0 * getFriction blt rb1,
                                 m_combinedRestitution =
                                   getRestitution blt rb0 * getRestitution blt rb1,
                                 m_combinedRollingFriction =
                                   getRollingFriction blt rb0 * getRollingFriction blt rb1\<rparr>]))))"

definition apply_i ::
  "('f::{linorder,times,uminus,inverse,one}, 'rb) bullet \<Rightarrow> 'f
   \<Rightarrow> ('f, 'rb) SkinnedMeshBody \<Rightarrow> ('f, 'rb) SkinnedMeshBody \<Rightarrow> 'f MergeBuffer
   \<Rightarrow> nat \<Rightarrow> ('f, 'rb) dispatcher_call list" where
  \<comment> \<open>the body of the loop over \<^verbatim>\<open>i\<close>\<close>
  "apply_i blt FLT_EPSILON body0 body1 merge i =
     (if \<not> canCollideWith body1 (ptr (m_skinnedBones body0 ! i)) then []
      else concat (map (apply_j blt FLT_EPSILON body0 body1 merge i)
                     [0 ..< length (m_skinnedBones body1)]))"

definition apply_merge ::
  "('f::{linorder,times,uminus,inverse,one}, 'rb) bullet \<Rightarrow> 'f
   \<Rightarrow> ('f, 'rb) SkinnedMeshBody \<Rightarrow> ('f, 'rb) SkinnedMeshBody \<Rightarrow> 'f MergeBuffer
   \<Rightarrow> ('f, 'rb) dispatcher_call list" where
  \<comment> \<open>\<^verbatim>\<open>SkinnedMeshAlgorithm::MergeBuffer::apply\<close> (\<open>apply\<close> is a keyword here)\<close>
  "apply_merge blt FLT_EPSILON body0 body1 merge =
     concat (map (apply_i blt FLT_EPSILON body0 body1 merge)
               [0 ..< length (m_skinnedBones body0)])"

text \<open>
  The entry point \<^verbatim>\<open>processCollision(body0, body1, dispatcher)\<close>. What
  \<^verbatim>\<open>body->m_shape\<close> answers to \<^verbatim>\<open>asPerTriangleShape()\<close> (null for a per-vertex
  shape) and to \<^verbatim>\<open>asPerVertexShape()\<close> is passed beside each body. The three
  overloads of \<^verbatim>\<open>checkCollide\<close> that the four calls select are parameters:
  vertex against vertex, vertex against triangle, and triangle against vertex.
  \<open>garbage\<close> is the content of the array that \<^verbatim>\<open>new CollisionResult[MaxCollisionCount]\<close>
  returns.
\<close>

record ('f, 'c, 'rb) m_shape =
  asPerTriangleShape :: "('f, 'c, 'rb) SkinnedMeshShape option"
  asPerVertexShape :: "('f, 'c, 'rb) SkinnedMeshShape"

definition processCollision ::
  "(('f, 'c, 'rb) SkinnedMeshShape \<Rightarrow> ('f, 'c, 'rb) SkinnedMeshShape
      \<Rightarrow> (int \<Rightarrow> ('f, 'c) CollisionResult) \<Rightarrow> int \<times> (int \<Rightarrow> ('f, 'c) CollisionResult))
   \<Rightarrow> (('f, 'c, 'rb) SkinnedMeshShape \<Rightarrow> ('f, 'c, 'rb) SkinnedMeshShape
      \<Rightarrow> (int \<Rightarrow> ('f, 'c) CollisionResult) \<Rightarrow> int \<times> (int \<Rightarrow> ('f, 'c) CollisionResult))
   \<Rightarrow> (('f, 'c, 'rb) SkinnedMeshShape \<Rightarrow> ('f, 'c, 'rb) SkinnedMeshShape
      \<Rightarrow> (int \<Rightarrow> ('f, 'c) CollisionResult) \<Rightarrow> int \<times> (int \<Rightarrow> ('f, 'c) CollisionResult))
   \<Rightarrow> int \<Rightarrow> 'f::{linorder,zero,plus,times,uminus,inverse,one} \<Rightarrow> ('c \<Rightarrow> 'f Collider)
   \<Rightarrow> ('f, 'rb) bullet \<Rightarrow> (int \<Rightarrow> ('f, 'c) CollisionResult)
   \<Rightarrow> ('f, 'rb) SkinnedMeshBody \<Rightarrow> ('f, 'c, 'rb) m_shape
   \<Rightarrow> ('f, 'rb) SkinnedMeshBody \<Rightarrow> ('f, 'c, 'rb) m_shape
   \<Rightarrow> error + ('f, 'rb) dispatcher_call list" where
  "processCollision checkCollide_VV checkCollide_VT checkCollide_TV MaxCollisionCount FLT_EPSILON
      col blt garbage body0 shape0 body1 shape1 =
     (let merge = alloc;
          collision = garbage;
          merged =
            (case (asPerTriangleShape shape0, asPerTriangleShape shape1) of
               (Some t0, Some t1) \<Rightarrow>
                 (case processCollision_T checkCollide_TV MaxCollisionCount FLT_EPSILON col
                         t0 (asPerVertexShape shape1) merge collision of
                    Inl e \<Rightarrow> Inl e
                  | Inr (merge1, collision1) \<Rightarrow>
                      processCollision_T checkCollide_VT MaxCollisionCount FLT_EPSILON col
                        (asPerVertexShape shape0) t1 merge1 collision1)
             | (Some t0, None) \<Rightarrow>
                 processCollision_T checkCollide_TV MaxCollisionCount FLT_EPSILON col
                   t0 (asPerVertexShape shape1) merge collision
             | (None, Some t1) \<Rightarrow>
                 processCollision_T checkCollide_VT MaxCollisionCount FLT_EPSILON col
                   (asPerVertexShape shape0) t1 merge collision
             | (None, None) \<Rightarrow>
                 processCollision_T checkCollide_VV MaxCollisionCount FLT_EPSILON col
                   (asPerVertexShape shape0) (asPerVertexShape shape1) merge collision)
      in case merged of
           Inl e \<Rightarrow> Inl e
         | Inr (merge2, collision2) \<Rightarrow> Inr (apply_merge blt FLT_EPSILON body0 body1 merge2))"

section \<open>Collider trees, the local broad phase and the pair dispatcher\<close>

text \<open>
  Modelled from the spec: the class \<^verbatim>\<open>Aabb\<close> (\<^verbatim>\<open>hdtAabb.h\<close> is not among the sources).
  It is the axis-aligned bounding box of the glossary: two boxes collide when they
  intersect on each of the three axes, and merging a box into another one makes the
  latter enclose both. What a default-constructed box and an invalidated box hold is not
  said; both are parameters (\<open>init_box\<close>, \<open>invalid_box\<close>) of the code that creates them.
\<close>

record 'f Aabb =
  m_min :: "'f btVector3"
  m_max :: "'f btVector3"

definition collideWith :: "'f::ord Aabb \<Rightarrow> 'f Aabb \<Rightarrow> bool" where
  "collideWith p q \<longleftrightarrow>
     vx (m_min p) \<le> vx (m_max q) \<and> vx (m_min q) \<le> vx (m_max p)
     \<and> vy (m_min p) \<le> vy (m_max q) \<and> vy (m_min q) \<le> vy (m_max p)
     \<and> vz (m_min p) \<le> vz (m_max q) \<and> vz (m_min q) \<le> vz (m_max p)"

definition aabb_merge :: "'f::linorder Aabb \<Rightarrow> 'f Aabb \<Rightarrow> 'f Aabb" where
  \<comment> \<open>\<^verbatim>\<open>p.merge(q)\<close>: the new value of \<open>p\<close>\<close>
  "aabb_merge p q =
     \<lparr>m_min = Vec3 (min (vx (m_min p)) (vx (m_min q))) (min (vy (m_min p)) (vy (m_min q)))
                   (min (vz (m_min p)) (vz (m_min q))),
      m_max = Vec3 (max (vx (m_max p)) (vx (m_max q))) (max (vy (m_max p)) (vy (m_max q)))
                   (max (vz (m_max p)) (vz (m_max q)))\<rparr>"

definition encloses :: "'f::ord Aabb \<Rightarrow> 'f Aabb \<Rightarrow> bool" where
  \<comment> \<open>the first box contains the second\<close>
  "encloses p q \<longleftrightarrow>
     vx (m_min p) \<le> vx (m_min q) \<and> vx (m_max q) \<le> vx (m_max p)
     \<and> vy (m_min p) \<le> vy (m_min q) \<and> vy (m_max q) \<le> vy (m_max p)
     \<and> vz (m_min p) \<le> vz (m_min q) \<and> vz (m_max q) \<le> vz (m_max p)"

text \<open>
  The members of \<^verbatim>\<open>ColliderTree\<close> that the algorithms read. \<^verbatim>\<open>aabb\<close> and
  \<^verbatim>\<open>cbuf\<close> are raw pointers to parallel arrays: \<open>aabb t i\<close> is the box at offset \<open>i\<close>
  and \<open>cbuf t i\<close> the address \<^verbatim>\<open>&t->cbuf[i]\<close>. An \<^verbatim>\<open>Aabb*\<close> into the array is its
  offset from \<^verbatim>\<open>t->aabb\<close>. \<open>tree_isKinematic\<close> is the member \<^verbatim>\<open>isKinematic\<close>.
\<close>

record ('f, 'c) ColliderTree =
  aabb :: "nat \<Rightarrow> 'f Aabb"
  cbuf :: "nat \<Rightarrow> 'c"
  aabbMe :: "'f Aabb"
  tree_isKinematic :: bool
  dynCollider :: nat
  numCollider :: nat

definition check_pair ::
  "('f::linorder, 'c) checker \<Rightarrow> ('f, 'c) ColliderTree \<Rightarrow> ('f, 'c) ColliderTree \<Rightarrow> nat \<Rightarrow> nat
   \<Rightarrow> ('f, 'c) CollisionResult option \<times> ('f, 'c) CollisionResult
   \<Rightarrow> ('f, 'c) CollisionResult option \<times> ('f, 'c) CollisionResult" where
  \<comment> \<open>the body of the innermost loop, the same text in \<^verbatim>\<open>dispatch\<close> and in both
      branches of the \<^verbatim>\<open>e_CPU\<close> algorithm; the state is \<^verbatim>\<open>result\<close> (present iff
      \<^verbatim>\<open>hasResult\<close>) and \<^verbatim>\<open>temp\<close>\<close>
  "check_pair checkCollide a b i j st =
     (case st of (result, temp) \<Rightarrow>
        if \<not> collideWith (aabb a i) (aabb b j) then (result, temp)
        else
          (case checkCollide (cbuf a i) (cbuf b j) temp of
             (ret, temp1) \<Rightarrow>
               if ret
               then (case result of
                       None \<Rightarrow> (Some temp1, temp1)
                     | Some r \<Rightarrow> if depth r > depth temp1 then (Some temp1, temp1)
                                else (Some r, temp1))
               else (result, temp1)))"

definition dispatch_loops ::
  "('f::linorder, 'c) checker \<Rightarrow> ('f, 'c) CollisionResult
   \<Rightarrow> ('f, 'c) ColliderTree \<Rightarrow> ('f, 'c) ColliderTree \<Rightarrow> nat list \<Rightarrow> nat list
   \<Rightarrow> ('f, 'c) CollisionResult option" where
  \<comment> \<open>the loops of \<^verbatim>\<open>CollisionCheckDispatcher::dispatch\<close>; \<open>temp0\<close> is the content of
      the uninitialised local \<^verbatim>\<open>temp\<close>\<close>
  "dispatch_loops checkCollide temp0 a b listA listB =
     fst (if listA \<noteq> [] \<and> listB \<noteq> []
          then fold (\<lambda>i. fold (\<lambda>j. check_pair checkCollide a b i j) listB) listA (None, temp0)
          else (None, temp0))"

definition dispatch ::
  "('f::{linorder,uminus}, 'c) checker \<Rightarrow> bool \<Rightarrow> int \<Rightarrow> ('f, 'c) CollisionResult
   \<Rightarrow> ('f, 'c) ColliderTree \<Rightarrow> ('f, 'c) ColliderTree \<Rightarrow> nat list \<Rightarrow> nat list
   \<Rightarrow> ('f, 'c) sink \<Rightarrow> ('f, 'c) sink" where
  \<comment> \<open>\<^verbatim>\<open>CollisionCheckDispatcher::dispatch\<close>\<close>
  "dispatch checkCollide SwapResults MaxCollisionCount temp0 a b listA listB s =
     (case dispatch_loops checkCollide temp0 a b listA listB of
        Some result \<Rightarrow> snd (addResult SwapResults MaxCollisionCount s result)
      | None \<Rightarrow> s)"

definition scan ::
  "(nat \<Rightarrow> 'f::linorder Aabb) \<Rightarrow> nat \<Rightarrow> 'f Aabb \<Rightarrow> 'f Aabb \<Rightarrow> nat list \<times> 'f Aabb" where
  \<comment> \<open>\<^verbatim>\<open>for (auto i = beg; i < end; ++i) if (i->collideWith(box)) { list.push_back(i);
      acc.merge(*i); }\<close> on an empty list\<close>
  "scan boxes n box acc0 =
     fold (\<lambda>i st. case st of (list, acc) \<Rightarrow>
             if collideWith (boxes i) box then (list @ [i], aabb_merge acc (boxes i))
             else (list, acc))
       [0 ..< n] ([], acc0)"

definition refine_lists ::
  "'f::linorder Aabb \<Rightarrow> 'f Aabb \<Rightarrow> ('f, 'c) ColliderTree \<Rightarrow> ('f, 'c) ColliderTree
   \<Rightarrow> nat list \<times> nat list" where
  \<comment> \<open>the three filtering steps of the \<^verbatim>\<open>e_CPURefactored\<close> lambda; the thread-local
      lists are empty on entry, since every call that fills them clears them\<close>
  "refine_lists init_box invalid_box a b =
     (let asize = (if tree_isKinematic b then dynCollider a else numCollider a);
          bsize = (if tree_isKinematic a then dynCollider b else numCollider b);
          aabbB = aabbMe b
      in case scan (aabb a) asize aabbB init_box of
           (listA, aabbA) \<Rightarrow>
             (case (if listA \<noteq> [] then scan (aabb b) bsize aabbA invalid_box
                    else ([], aabbB)) of
                (listB, aabbB1) \<Rightarrow>
                  ((if listB \<noteq> [] then filter (\<lambda>i. collideWith (aabb a i) aabbB1) listA
                    else listA),
                   listB)))"

definition loops_CPU ::
  "('f::linorder, 'c) checker \<Rightarrow> ('f, 'c) CollisionResult
   \<Rightarrow> ('f, 'c) ColliderTree \<Rightarrow> ('f, 'c) ColliderTree \<Rightarrow> ('f, 'c) CollisionResult option" where
  \<comment> \<open>the \<^verbatim>\<open>e_CPU\<close> lambda between its guard and its \<^verbatim>\<open>addResult\<close>\<close>
  "loops_CPU checkCollide temp0 a b =
     (let aabbA = aabbMe a;
          aabbB = aabbMe b;
          asize = (if tree_isKinematic b then dynCollider a else numCollider a);
          bsize = (if tree_isKinematic a then dynCollider b else numCollider b)
      in fst (if asize > bsize
              then (let list = filter (\<lambda>j. collideWith (aabb b j) aabbA) [0 ..< bsize]
                    in fold (\<lambda>i st. if \<not> collideWith (aabb a i) aabbB then st
                                     else fold (\<lambda>j. check_pair checkCollide a b i j) list st)
                         [0 ..< asize] (None, temp0))
              else (let list = filter (\<lambda>i. collideWith (aabb a i) aabbB) [0 ..< asize]
                    in fold (\<lambda>j st. if \<not> collideWith (aabb b j) aabbA then st
                                     else fold (\<lambda>i. check_pair checkCollide a b i j) list st)
                         [0 ..< bsize] (None, temp0))))"

text \<open>
  The two lambdas \<^verbatim>\<open>func\<close>, each split at its guard: \<open>body\<close> is what follows the
  guard.
\<close>

definition body_CPURefactored ::
  "('f::{linorder,uminus}, 'c) checker \<Rightarrow> bool \<Rightarrow> int \<Rightarrow> ('f, 'c) CollisionResult
   \<Rightarrow> 'f Aabb \<Rightarrow> 'f Aabb \<Rightarrow> ('f, 'c) ColliderTree \<times> ('f, 'c) ColliderTree
   \<Rightarrow> ('f, 'c) sink \<Rightarrow> ('f, 'c) sink" where
  "body_CPURefactored checkCollide SwapResults MaxCollisionCount temp0 init_box invalid_box pair s =
     (case refine_lists init_box invalid_box (fst pair) (snd pair) of
        (listA, listB) \<Rightarrow>
          dispatch checkCollide SwapResults MaxCollisionCount temp0 (fst pair) (snd pair)
            listA listB s)"

definition func_CPURefactored ::
  "('f::{linorder,uminus}, 'c) checker \<Rightarrow> bool \<Rightarrow> int \<Rightarrow> ('f, 'c) CollisionResult
   \<Rightarrow> 'f Aabb \<Rightarrow> 'f Aabb \<Rightarrow> ('f, 'c) ColliderTree \<times> ('f, 'c) ColliderTree
   \<Rightarrow> ('f, 'c) sink \<Rightarrow> ('f, 'c) sink" where
  \<comment> \<open>the lambda of \<^verbatim>\<open>CollisionCheckAlgorithm::operator()\<close> (\<^verbatim>\<open>e_CPURefactored\<close>)\<close>
  "func_CPURefactored checkCollide SwapResults MaxCollisionCount temp0 init_box invalid_box pair s =
     (if sint (numResults s) \<ge> MaxCollisionCount then s
      else body_CPURefactored checkCollide SwapResults MaxCollisionCount temp0 init_box
             invalid_box pair s)"

definition body_CPU ::
  "('f::{linorder,uminus}, 'c) checker \<Rightarrow> bool \<Rightarrow> int \<Rightarrow> ('f, 'c) CollisionResult
   \<Rightarrow> ('f, 'c) ColliderTree \<times> ('f, 'c) ColliderTree
   \<Rightarrow> ('f, 'c) sink \<Rightarrow> ('f, 'c) sink" where
  "body_CPU checkCollide SwapResults MaxCollisionCount temp0 pair s =
     (case loops_CPU checkCollide temp0 (fst pair) (snd pair) of
        Some result \<Rightarrow> snd (addResult SwapResults MaxCollisionCount s result)
      | None \<Rightarrow> s)"

definition func_CPU ::
  "('f::{linorder,uminus}, 'c) checker \<Rightarrow> bool \<Rightarrow> int \<Rightarrow> ('f, 'c) CollisionResult
   \<Rightarrow> ('f, 'c) ColliderTree \<times> ('f, 'c) ColliderTree
   \<Rightarrow> ('f, 'c) sink \<Rightarrow> ('f, 'c) sink" where
  \<comment> \<open>the lambda of \<^verbatim>\<open>CollisionCheckAlgorithm<T, SwapResults, e_CPU>::operator()\<close>\<close>
  "func_CPU checkCollide SwapResults MaxCollisionCount temp0 pair s =
     (if sint (numResults s) \<ge> MaxCollisionCount then s
      else body_CPU checkCollide SwapResults MaxCollisionCount temp0 pair s)"

text \<open>
  \<^verbatim>\<open>concurrency::parallel_for_each(pairs.begin(), pairs.end(), func)\<close>. Each call of
  \<^verbatim>\<open>func\<close> touches the shared sink in two atomic operations: the load of
  \<^verbatim>\<open>numResults\<close> in its guard and, if it found a contact, the \<^verbatim>\<open>fetch_add\<close> of
  \<^verbatim>\<open>addResult\<close> (followed by the write to the slot reserved, which no other call
  writes). Everything between works on locals. A run is a schedule: the list of the
  pair indices in the order in which the calls take their next step. \<open>body\<close> is
  \<^verbatim>\<open>func\<close> after its guard. The run is \<open>None\<close> when the schedule leaves a call
  unfinished or names one that has finished.
\<close>

datatype phase = Waiting | Entered | Finished

definition par_step ::
  "int \<Rightarrow> ('p \<Rightarrow> ('f, 'c) sink \<Rightarrow> ('f, 'c) sink) \<Rightarrow> 'p list \<Rightarrow> nat
   \<Rightarrow> (phase list \<times> ('f, 'c) sink) option \<Rightarrow> (phase list \<times> ('f, 'c) sink) option" where
  "par_step MaxCollisionCount body pairs k st =
     (case st of
        None \<Rightarrow> None
      | Some (phases, s) \<Rightarrow>
          if \<not> k < length pairs then None
          else
            (case phases ! k of
               Waiting \<Rightarrow>
                 if sint (numResults s) \<ge> MaxCollisionCount
                 then Some (phases[k := Finished], s)
                 else Some (phases[k := Entered], s)
             | Entered \<Rightarrow> Some (phases[k := Finished], body (pairs ! k) s)
             | Finished \<Rightarrow> None))"

definition parallel_for_each ::
  "int \<Rightarrow> ('p \<Rightarrow> ('f, 'c) sink \<Rightarrow> ('f, 'c) sink) \<Rightarrow> nat list \<Rightarrow> 'p list
   \<Rightarrow> ('f, 'c) sink \<Rightarrow> ('f, 'c) sink option" where
  "parallel_for_each MaxCollisionCount body schedule pairs s =
     (case fold (par_step MaxCollisionCount body pairs) schedule
             (Some (replicate (length pairs) Waiting, s)) of
        None \<Rightarrow> None
      | Some (phases, s1) \<Rightarrow> if list_all (\<lambda>ph. ph = Finished) phases then Some s1 else None)"

text \<open>
  \<^verbatim>\<open>operator()\<close> of either algorithm, on a freshly constructed checker. \<open>pairs\<close> is what
  \<^verbatim>\<open>c0->checkCollisionL(c1, pairs)\<close> has found, \<open>func\<close> the lambda, \<open>body\<close> the lambda
  after its guard, \<open>hardware_concurrency\<close> the value of
  \<^verbatim>\<open>std::thread::hardware_concurrency()\<close>. The result is the \<^verbatim>\<open>int\<close> returned and the
  sink as it is left.
\<close>

definition CollisionCheckAlgorithm_call ::
  "int \<Rightarrow> ('p \<Rightarrow> ('f, 'c) sink \<Rightarrow> ('f, 'c) sink) \<Rightarrow> ('p \<Rightarrow> ('f, 'c) sink \<Rightarrow> ('f, 'c) sink)
   \<Rightarrow> nat \<Rightarrow> nat list \<Rightarrow> 'p list \<Rightarrow> (int \<Rightarrow> ('f, 'c) CollisionResult)
   \<Rightarrow> (int \<times> ('f, 'c) sink) option" where
  "CollisionCheckAlgorithm_call MaxCollisionCount func body hardware_concurrency schedule pairs r =
     (let s = sink_init r
      in if pairs = [] then Some (0, s)
         else
           (case (if length pairs \<ge> hardware_concurrency
                  then parallel_for_each MaxCollisionCount body schedule pairs s
                  else Some (fold func pairs s)) of
              None \<Rightarrow> None
            | Some s1 \<Rightarrow> Some (sint (numResults s1), s1)))"

text \<open>
  The contact, if any, that each algorithm finds for one coarse pair and hands to
  \<^verbatim>\<open>addResult\<close>.
\<close>

definition best_CPURefactored ::
  "('f::linorder, 'c) checker \<Rightarrow> ('f, 'c) CollisionResult \<Rightarrow> 'f Aabb \<Rightarrow> 'f Aabb
   \<Rightarrow> ('f, 'c) ColliderTree \<Rightarrow> ('f, 'c) ColliderTree \<Rightarrow> ('f, 'c) CollisionResult option" where
  "best_CPURefactored checkCollide temp0 init_box invalid_box a b =
     (case refine_lists init_box invalid_box a b of
        (listA, listB) \<Rightarrow> dispatch_loops checkCollide temp0 a b listA listB)"

text \<open>
  Notions for stating what the two algorithms find. \<open>keep_best\<close> is the update of
  \<^verbatim>\<open>result\<close> inside \<open>check_pair\<close>. \<open>hit\<close> is the contact of collider \<open>i\<close> of the first
  tree with collider \<open>j\<close> of the second, if their boxes collide and the checker reports an
  overlap. A checker is pure when its answer, and on overlap the result it writes, do
  not depend on what the result object held before (section 2 of the spec calls the
  geometry checkers pure functions). \<open>scan_size t other\<close> is the number of colliders of
  \<open>t\<close> that are scanned against \<open>other\<close> (\<^verbatim>\<open>asize\<close>, \<^verbatim>\<open>bsize\<close>), and \<open>overlapping\<close>
  lists the contacts of all overlapping pairs in those ranges. \<open>finished\<close> is the set of
  calls of a parallel run that have returned.
\<close>

definition keep_best ::
  "('f::linorder, 'c) CollisionResult option \<Rightarrow> ('f, 'c) CollisionResult
     \<Rightarrow> ('f, 'c) CollisionResult option" where
  "keep_best result c =
     (case result of None \<Rightarrow> Some c
      | Some r \<Rightarrow> if depth r > depth c then Some c else Some r)"

definition hit ::
  "('f::linorder, 'c) checker \<Rightarrow> ('f, 'c) CollisionResult
   \<Rightarrow> ('f, 'c) ColliderTree \<Rightarrow> ('f, 'c) ColliderTree \<Rightarrow> nat \<times> nat
   \<Rightarrow> ('f, 'c) CollisionResult option" where
  "hit checkCollide temp a b ij =
     (if collideWith (aabb a (fst ij)) (aabb b (snd ij))
         \<and> fst (checkCollide (cbuf a (fst ij)) (cbuf b (snd ij)) temp)
      then Some (snd (checkCollide (cbuf a (fst ij)) (cbuf b (snd ij)) temp))
      else None)"

definition pure_checker :: "('f, 'c) checker \<Rightarrow> bool" where
  "pure_checker checkCollide \<longleftrightarrow>
     (\<forall>x y t t'. fst (checkCollide x y t) = fst (checkCollide x y t')
        \<and> (fst (checkCollide x y t) \<longrightarrow> snd (checkCollide x y t) = snd (checkCollide x y t')))"

definition scan_size :: "('f, 'c) ColliderTree \<Rightarrow> ('f, 'c) ColliderTree \<Rightarrow> nat" where
  "scan_size t other = (if tree_isKinematic other then dynCollider t else numCollider t)"

definition overlapping ::
  "('f::linorder, 'c) checker \<Rightarrow> ('f, 'c) CollisionResult
   \<Rightarrow> ('f, 'c) ColliderTree \<Rightarrow> ('f, 'c) ColliderTree \<Rightarrow> ('f, 'c) CollisionResult list" where
  "overlapping checkCollide temp a b =
     List.map_filter (hit checkCollide temp a b)
       (List.product [0 ..< scan_size a b] [0 ..< scan_size b a])"

definition finished :: "phase list \<Rightarrow> nat set" where
  "finished phases = {k. k < length phases \<and> phases ! k = Finished}"

section \<open>Sample data\<close>

text \<open>
  Concrete inputs on which the definitions above are run. Scalars are real numbers,
  pointers are natural numbers. Contact \<open>n\<close> lies between colliders \<open>n\<close> and \<open>n + 1\<close>
  and has depth \<open>- n\<close>.
\<close>

definition sample_contact :: "int \<Rightarrow> (real, nat) CollisionResult" where
  "sample_contact n =
     \<lparr>posA = Vec3 (of_int n) 0 0, posB = Vec3 0 (of_int n) 0, normOnB = Vec3 0 0 1,
      colliderA = nat n, colliderB = nat n + 1, depth = - of_int n\<rparr>"

definition sample_eps :: real where
  \<comment> \<open>\<^verbatim>\<open>FLT_EPSILON\<close>, \<open>2^-23\<close>\<close>
  "sample_eps = 1 / 8388608"

definition sample_col :: "nat \<Rightarrow> real Collider" where
  "sample_col c = \<lparr>vertex = c, vertices = (\<lambda>k. 3 * c + k), flexible = 1\<rparr>"

definition sample_body0 :: "(real, nat) SkinnedMeshBody" where
  \<comment> \<open>a dynamic bone on rigid body 0 and a kinematic bone on rigid body 1\<close>
  "sample_body0 =
     \<lparr>m_skinnedBones = [\<lparr>weightThreshold = 0, isKinematic = False, ptr = 0\<rparr>,
                        \<lparr>weightThreshold = 0, isKinematic = True, ptr = 1\<rparr>],
      canCollideWith = (\<lambda>rb. rb \<noteq> 3)\<rparr>"

definition sample_body1 :: "(real, nat) SkinnedMeshBody" where
  \<comment> \<open>a kinematic bone on rigid body 2, dynamic bones on rigid bodies 0 and 3\<close>
  "sample_body1 =
     \<lparr>m_skinnedBones = [\<lparr>weightThreshold = 0, isKinematic = True, ptr = 2\<rparr>,
                        \<lparr>weightThreshold = 0, isKinematic = False, ptr = 0\<rparr>,
                        \<lparr>weightThreshold = 0, isKinematic = False, ptr = 3\<rparr>],
      canCollideWith = (\<lambda>rb. True)\<rparr>"

definition sample_shape :: "(real, nat) SkinnedMeshBody \<Rightarrow> (real, nat, nat) SkinnedMeshShape" where
  \<comment> \<open>two bones per collider, of weights 1 and 0\<close>
  "sample_shape body =
     \<lparr>m_owner = body, getBonePerCollider = 2,
      getColliderBoneWeight = (\<lambda>c ib. if ib = 0 then 1 else 0),
      getColliderBoneIndex = (\<lambda>c ib. ib)\<rparr>"

definition sample_bullet :: "(real, nat) bullet" where
  "sample_bullet =
     \<lparr>invXform = (\<lambda>rb v. v),
      fuzzyZero = (\<lambda>v. vlen v < sample_eps),
      vec_length = vlen,
      normalized = (\<lambda>v. vscale v (1 / vlen v)),
      getFriction = (\<lambda>rb. 1 / 2),
      getRestitution = (\<lambda>rb. 0),
      getRollingFriction = (\<lambda>rb. 0)\<rparr>"

definition sample_merge :: "real MergeBuffer" where
  "sample_merge =
     (\<lambda>i j. \<lparr>weight = 1, normal = Vec3 0 0 1, pos0 = Vec3 1 0 0, pos1 = Vec3 0 1 0\<rparr>)"

text \<open>
  Sample values for the parts of \<^verbatim>\<open>hdtCollider.h\<close> that the sphere-triangle checker
  calls. A triangle is its three corners with its margin and penetration, and is valid
  when it has an area. \<open>sample_checkSphereTriangle\<close> answers for a horizontal triangle
  and a sphere whose centre lies above its interior: the sphere is separated from the
  triangle dilated by its margin by the height of the centre over the triangle, less
  the radius and the margin. Any other configuration is reported as no contact.
\<close>

type_synonym sample_tri = "real btVector3 \<times> real btVector3 \<times> real btVector3 \<times> real \<times> real"

definition vcross :: "real btVector3 \<Rightarrow> real btVector3 \<Rightarrow> real btVector3" where
  "vcross u v =
     Vec3 (vy u * vz v - vz u * vy v) (vz u * vx v - vx u * vz v) (vx u * vy v - vy u * vx v)"

definition sample_triangle ::
  "real btVector3 \<Rightarrow> real btVector3 \<Rightarrow> real btVector3 \<Rightarrow> real \<Rightarrow> real \<Rightarrow> sample_tri" where
  "sample_triangle p0 p1 p2 m pen = (p0, p1, p2, m, pen)"

definition sample_valid :: "sample_tri \<Rightarrow> bool" where
  "sample_valid t =
     (case t of (p0, p1, p2, m, pen) \<Rightarrow> vcross (vsub p1 p0) (vsub p2 p0) \<noteq> Vec3 0 0 0)"

definition sample_above :: "real btVector3 \<Rightarrow> sample_tri \<Rightarrow> bool" where
  \<comment> \<open>the triangle is horizontal and \<open>s\<close> lies over it, on the same side of its three edges\<close>
  "sample_above s t =
     (case t of (p0, p1, p2, m, pen) \<Rightarrow>
        vz p1 = vz p0 \<and> vz p2 = vz p0 \<and> vz p0 \<le> vz s
        \<and> (let c0 = vz (vcross (vsub p1 p0) (vsub s p0));
                c1 = vz (vcross (vsub p2 p1) (vsub s p1));
                c2 = vz (vcross (vsub p0 p2) (vsub s p2))
            in (0 \<le> c0 \<and> 0 \<le> c1 \<and> 0 \<le> c2) \<or> (c0 \<le> 0 \<and> c1 \<le> 0 \<and> c2 \<le> 0)))"

definition sample_checkSphereTriangle ::
  "real btVector3 \<Rightarrow> real \<Rightarrow> sample_tri \<Rightarrow> (real, 'c) CollisionResult
     \<Rightarrow> bool \<times> (real, 'c) CollisionResult" where
  "sample_checkSphereTriangle s r t res =
     (case t of (p0, p1, p2, m, pen) \<Rightarrow>
        if sample_above s t \<and> vz s - vz p0 < r + m
        then (True, res\<lparr>posA := Vec3 (vx s) (vy s) (vz s - r),
                         posB := Vec3 (vx s) (vy s) (vz p0 + m),
                         normOnB := Vec3 0 0 1,
                         depth := vz s - vz p0 - (r + m)\<rparr>)
        else (False, res))"

text \<open>
  Two collider trees. Tree A holds the spheres 0 and 1, of radius 1, centred at
  \<open>(0.25, 0.25, 0.5)\<close> and at \<open>(10.25, 0.25, h)\<close>. Tree B holds the triangles 10 and 11,
  of margin \<open>0.25\<close>, in the plane \<open>z = 0\<close>: triangle 10 has the corners \<open>(10,0,0)\<close>,
  \<open>(11,0,0)\<close>, \<open>(10,1,0)\<close> and lies under sphere 1, triangle 11 has the corners
  \<open>(0,0,0)\<close>, \<open>(1,0,0)\<close>, \<open>(0,1,0)\<close> and lies under sphere 0. Sphere 0 enters triangle 11
  by \<open>0.75\<close>, sphere 1 enters triangle 10 by \<open>1.25 - h\<close>. The boxes are
  \<open>[lo, hi] \<times> [-1, 2] \<times> [-1, 2]\<close>; \<open>sample_box 12 (- 1)\<close> is a box turned inside out,
  which merging with any box of the sample replaces by that box.
\<close>

definition sample_box :: "real \<Rightarrow> real \<Rightarrow> real Aabb" where
  "sample_box lo hi = \<lparr>m_min = Vec3 lo (- 1) (- 1), m_max = Vec3 hi 2 2\<rparr>"

definition sample_treeA :: "(real, nat) ColliderTree" where
  "sample_treeA =
     \<lparr>aabb = (\<lambda>i. if i = 0 then sample_box (- 1) 2 else sample_box 9 12),
      cbuf = (\<lambda>i. i),
      aabbMe = sample_box (- 1) 12,
      tree_isKinematic = False, dynCollider = 2, numCollider = 2\<rparr>"

definition sample_treeB :: "(real, nat) ColliderTree" where
  "sample_treeB =
     \<lparr>aabb = (\<lambda>j. if j = 0 then sample_box 9 12 else sample_box (- 1) 2),
      cbuf = (\<lambda>j. 10 + j),
      aabbMe = sample_box (- 1) 12,
      tree_isKinematic = False, dynCollider = 2, numCollider = 2\<rparr>"

definition sample_spheres :: "real \<Rightarrow> nat \<Rightarrow> real VertexPos" where
  \<comment> \<open>the vertex buffer of body A; \<open>h\<close> is the height of sphere 1\<close>
  "sample_spheres h k =
     \<lparr>pos = (if k = 0 then Vec3 (1 / 4) (1 / 4) (1 / 2) else Vec3 (41 / 4) (1 / 4) h),
      marginMultiplier = 1\<rparr>"

definition sample_corners :: "nat \<Rightarrow> real VertexPos" where
  \<comment> \<open>the vertex buffer of body B: triangle 10 at the indices 30 to 32, triangle 11 at
      33 to 35\<close>
  "sample_corners k =
     \<lparr>pos = Vec3 ((if k < 33 then 10 else 0) + (if k mod 3 = 1 then 1 else 0))
                  (if k mod 3 = 2 then 1 else 0) 0,
      marginMultiplier = 1\<rparr>"

definition sample_checkCollide :: "real \<Rightarrow> (real, nat) checker" where
  "sample_checkCollide h =
     checkCollide_PerTriangleShape sample_triangle sample_valid sample_checkSphereTriangle
       sample_col (sample_spheres h) sample_corners
       \<lparr>margin = 1\<rparr> \<lparr>margin = 1 / 4, penetration = 0\<rparr>"

section \<open>Properties of the sink\<close>

lemma sint_of_nat_32:
  assumes "n < 2 ^ 31"
  shows "sint (of_nat n :: 32 word) = int n"
proof -
  have "sint (of_nat n :: 32 word) = signed_take_bit 31 (int n)"
    using sint_sbintrunc' [of "int n", where 'a = 32] by simp
  also have "\<dots> = int n"
    using assms by (intro signed_take_bit_int_eq_self) auto
  finally show ?thesis .
qed

lemma addResult_fst: "fst (addResult sw M s res) = (sint (numResults s) < M)"
  by (simp add: addResult_def addResult_plain_def addResult_swap_def Let_def)

lemma addResult_counter: "numResults (snd (addResult sw M s res)) = numResults s + 1"
  by (simp add: addResult_def addResult_plain_def addResult_swap_def Let_def)

lemma addResult_rejected:
  "\<not> sint (numResults s) < M \<Longrightarrow> results (snd (addResult sw M s res)) = results s"
  by (simp add: addResult_def addResult_plain_def addResult_swap_def Let_def)

lemma addResult_plain_stored:
  "sint (numResults s) < M \<Longrightarrow>
     results (snd (addResult False M s res)) = (results s)(sint (numResults s) := res)"
  by (simp add: addResult_def addResult_plain_def Let_def)

lemma addResult_other_slot:
  "i \<noteq> sint (numResults s) \<Longrightarrow> results (snd (addResult sw M s res)) i = results s i"
  by (simp add: addResult_def addResult_plain_def addResult_swap_def Let_def)

lemma addResult_beyond:
  "M \<le> i \<Longrightarrow> results (snd (addResult sw M s res)) i = results s i"
  by (simp add: addResult_def addResult_plain_def addResult_swap_def Let_def)

lemma addResults_Cons_fst:
  "fst (addResults sw M s (x # xs))
     = fst (addResult sw M s x) # fst (addResults sw M (snd (addResult sw M s x)) xs)"
  by (simp split: prod.splits)

lemma addResults_Cons_snd:
  "snd (addResults sw M s (x # xs)) = snd (addResults sw M (snd (addResult sw M s x)) xs)"
  by (simp split: prod.splits)

lemma addResults_beyond:
  "M \<le> i \<Longrightarrow> results (snd (addResults sw M s xs)) i = results s i"
proof (induction xs arbitrary: s)
  case Nil
  show ?case by simp
next
  case (Cons x xs)
  have "results (snd (addResults sw M (snd (addResult sw M s x)) xs)) i
          = results (snd (addResult sw M s x)) i"
    using Cons by blast
  also have "\<dots> = results s i"
    by (rule addResult_beyond [OF Cons.prems])
  finally show ?case by (simp only: addResults_Cons_snd)
qed

lemma addResults_flags:
  "numResults s = of_nat k \<Longrightarrow> k + length xs \<le> 2 ^ 31 \<Longrightarrow>
     fst (addResults sw M s xs) = map (\<lambda>j. int j < M) [k ..< k + length xs]"
proof (induction xs arbitrary: s k)
  case Nil
  show ?case by simp
next
  case (Cons x xs)
  let ?s1 = "snd (addResult sw M s x)"
  have k: "k < 2 ^ 31" using Cons.prems(2) by simp
  have b: "fst (addResult sw M s x) = (int k < M)"
    using addResult_fst [of sw M s x] Cons.prems(1) sint_of_nat_32 [OF k] by simp
  have c: "numResults ?s1 = of_nat (Suc k)"
    using addResult_counter [of sw M s x] Cons.prems(1) by simp
  have len: "Suc k + length xs \<le> 2 ^ 31" using Cons.prems(2) by simp
  have tl: "fst (addResults sw M ?s1 xs) = map (\<lambda>j. int j < M) [Suc k ..< Suc k + length xs]"
    by (rule Cons.IH [OF c len])
  have "k < k + length (x # xs)" by simp
  then have "[k ..< k + length (x # xs)] = k # [Suc k ..< k + length (x # xs)]"
    by (rule upt_conv_Cons)
  then have "[k ..< k + length (x # xs)] = k # [Suc k ..< Suc k + length xs]"
    by simp
  then show ?case
    by (simp only: addResults_Cons_fst b tl list.map)
qed

lemma addResults_outside:
  "numResults s = of_nat k \<Longrightarrow> k + length xs \<le> 2 ^ 31 \<Longrightarrow>
   i < int k \<or> int (k + length xs) \<le> i \<Longrightarrow>
     results (snd (addResults sw M s xs)) i = results s i"
proof (induction xs arbitrary: s k)
  case Nil
  show ?case by simp
next
  case (Cons x xs)
  let ?s1 = "snd (addResult sw M s x)"
  have k: "k < 2 ^ 31" using Cons.prems(2) by simp
  have p: "sint (numResults s) = int k"
    using Cons.prems(1) sint_of_nat_32 [OF k] by simp
  have c: "numResults ?s1 = of_nat (Suc k)"
    using addResult_counter [of sw M s x] Cons.prems(1) by simp
  have len: "Suc k + length xs \<le> 2 ^ 31" using Cons.prems(2) by simp
  have i: "i < int (Suc k) \<or> int (Suc k + length xs) \<le> i" "i \<noteq> sint (numResults s)"
    using Cons.prems(3) p by auto
  have "results (snd (addResults sw M ?s1 xs)) i = results ?s1 i"
    by (rule Cons.IH [OF c len i(1)])
  also have "\<dots> = results s i"
    by (rule addResult_other_slot [OF i(2)])
  finally show ?case by (simp only: addResults_Cons_snd)
qed

lemma addResults_plain_at:
  "numResults s = of_nat k \<Longrightarrow> k + length xs \<le> 2 ^ 31 \<Longrightarrow>
   j < length xs \<Longrightarrow> int (k + j) < M \<Longrightarrow>
     results (snd (addResults False M s xs)) (int (k + j)) = xs ! j"
proof (induction xs arbitrary: s k j)
  case Nil
  then show ?case by simp
next
  case (Cons x xs)
  let ?s1 = "snd (addResult False M s x)"
  have k: "k < 2 ^ 31" using Cons.prems(2) by simp
  have p: "sint (numResults s) = int k"
    using Cons.prems(1) sint_of_nat_32 [OF k] by simp
  have c: "numResults ?s1 = of_nat (Suc k)"
    using addResult_counter [of False M s x] Cons.prems(1) by simp
  have len: "Suc k + length xs \<le> 2 ^ 31" using Cons.prems(2) by simp
  show ?case
  proof (cases j)
    case 0
    have "int k < M" using Cons.prems(4) 0 by simp
    then have "results ?s1 (int k) = x"
      using addResult_plain_stored [of s M x] p by simp
    moreover have "results (snd (addResults False M ?s1 xs)) (int k) = results ?s1 (int k)"
      by (rule addResults_outside [OF c len]) simp
    ultimately show ?thesis using 0 by (simp only: addResults_Cons_snd) simp
  next
    case (Suc j')
    have "results (snd (addResults False M ?s1 xs)) (int (Suc k + j')) = xs ! j'"
      using Cons.IH [OF c len, of j'] Cons.prems(3,4) Suc by simp
    then show ?thesis using Suc by (simp only: addResults_Cons_snd) simp
  qed
qed

lemma accepted_count:
  "length (filter id (map (\<lambda>j. int j < M) [0 ..< n])) \<le> nat M"
proof -
  have "length (filter id (map (\<lambda>j. int j < M) [0 ..< n]))
          = length (filter (\<lambda>j. int j < M) [0 ..< n])"
    by (simp add: filter_map comp_def)
  also have "\<dots> = card ({j. int j < M} \<inter> set [0 ..< n])"
    by (rule distinct_length_filter) simp
  also have "\<dots> \<le> card {j. j < nat M}"
    by (intro card_mono) auto
  finally show ?thesis by simp
qed

lemma addResult_stored:
  "sint (numResults s) < M \<Longrightarrow>
     results (snd (addResult sw M s res))
       = (results s)(sint (numResults s) :=
           (if sw
            then \<lparr>posA = posB res, posB = posA res, normOnB = vneg (normOnB res),
                  colliderA = colliderB res, colliderB = colliderA res, depth = depth res\<rparr>
            else res))"
  by (simp add: addResult_def addResult_plain_def addResult_swap_def Let_def fun_eq_iff)

lemma addResults_at:
  assumes st: "\<And>s res. sint (numResults s) < M \<Longrightarrow>
                 results (snd (addResult sw M s res)) (sint (numResults s)) = f res"
  shows "numResults s = of_nat k \<Longrightarrow> k + length xs \<le> 2 ^ 31 \<Longrightarrow>
         j < length xs \<Longrightarrow> int (k + j) < M \<Longrightarrow>
           results (snd (addResults sw M s xs)) (int (k + j)) = f (xs ! j)"
proof (induction xs arbitrary: s k j)
  case Nil
  then show ?case by simp
next
  case (Cons x xs)
  let ?s1 = "snd (addResult sw M s x)"
  have k: "k < 2 ^ 31" using Cons.prems(2) by simp
  have p: "sint (numResults s) = int k"
    using Cons.prems(1) sint_of_nat_32 [OF k] by simp
  have c: "numResults ?s1 = of_nat (Suc k)"
    using addResult_counter [of sw M s x] Cons.prems(1) by simp
  have len: "Suc k + length xs \<le> 2 ^ 31" using Cons.prems(2) by simp
  show ?case
  proof (cases j)
    case 0
    have "int k < M" using Cons.prems(4) 0 by simp
    then have "results ?s1 (int k) = f x"
      using st [of s x] p by simp
    moreover have "results (snd (addResults sw M ?s1 xs)) (int k) = results ?s1 (int k)"
      by (rule addResults_outside [OF c len]) simp
    ultimately show ?thesis using 0 by (simp only: addResults_Cons_snd) simp
  next
    case (Suc j')
    have "results (snd (addResults sw M ?s1 xs)) (int (Suc k + j')) = f (xs ! j')"
      using Cons.IH [OF c len, of j'] Cons.prems(3,4) Suc by simp
    then show ?thesis using Suc by (simp only: addResults_Cons_snd) simp
  qed
qed

text \<open>
  Claim C3. A call of \<^verbatim>\<open>addResult\<close>, of either specialisation, returns true exactly
  when the index it reserved (the counter's value before the increment) is below
  \<^verbatim>\<open>MaxCollisionCount\<close>; then the contact is written to that slot (as it is by the plain
  adapter, with the roles of A and B exchanged and the normal negated by the swapped one)
  and nothing else changes, and otherwise the memory is left as it was. Whatever the
  number of submissions to a fresh sink, no slot at or beyond the capacity is ever
  written. As long as the 32-bit counter has not wrapped (fewer than \<open>2^31\<close> submissions),
  submission \<open>k\<close> is accepted iff \<open>k < MaxCollisionCount\<close>, the accepted contacts sit in
  slots \<open>0, 1, \<dots>\<close> in order of submission, no other memory changes, and at most
  \<^verbatim>\<open>MaxCollisionCount\<close> contacts are accepted.
\<close>

theorem addResult_bounded:
  "(fst (addResult sw M s res) \<longleftrightarrow> sint (numResults s) < M)
   \<and> results (snd (addResult sw M s res))
       = (if sint (numResults s) < M
          then (results s)(sint (numResults s) :=
                 (if sw
                  then \<lparr>posA = posB res, posB = posA res, normOnB = vneg (normOnB res),
                        colliderA = colliderB res, colliderB = colliderA res,
                        depth = depth res\<rparr>
                  else res))
          else results s)
   \<and> (\<forall>i. M \<le> i \<longrightarrow> results (snd (addResults sw M (sink_init r) xs)) i = r i)
   \<and> (length xs < 2 ^ 31 \<longrightarrow>
        fst (addResults sw M (sink_init r) xs) = map (\<lambda>k. int k < M) [0 ..< length xs]
      \<and> (\<forall>i. i < 0 \<or> int (length xs) \<le> i \<longrightarrow>
            results (snd (addResults sw M (sink_init r) xs)) i = r i)
      \<and> (\<forall>k < length xs. int k < M \<longrightarrow>
            results (snd (addResults sw M (sink_init r) xs)) (int k)
              = (if sw
                 then \<lparr>posA = posB (xs ! k), posB = posA (xs ! k),
                       normOnB = vneg (normOnB (xs ! k)),
                       colliderA = colliderB (xs ! k), colliderB = colliderA (xs ! k),
                       depth = depth (xs ! k)\<rparr>
                 else xs ! k))
      \<and> length (filter id (fst (addResults sw M (sink_init r) xs))) \<le> nat M)"
proof -
  let ?f = "\<lambda>c. if sw
                 then \<lparr>posA = posB c, posB = posA c, normOnB = vneg (normOnB c),
                       colliderA = colliderB c, colliderB = colliderA c, depth = depth c\<rparr>
                 else c"
  have init: "numResults (sink_init r) = of_nat 0" "results (sink_init r) = r"
    by (simp_all add: sink_init_def)
  have one: "results (snd (addResult sw M s res))
       = (if sint (numResults s) < M then (results s)(sint (numResults s) := ?f res)
          else results s)"
    using addResult_rejected [of s M sw res] addResult_stored [of s M sw res]
    by (cases "sint (numResults s) < M") simp_all
  have beyond: "\<forall>i. M \<le> i \<longrightarrow> results (snd (addResults sw M (sink_init r) xs)) i = r i"
    using addResults_beyond [of M _ sw "sink_init r" xs] init(2) by simp
  have seq: "fst (addResults sw M (sink_init r) xs) = map (\<lambda>k. int k < M) [0 ..< length xs]
      \<and> (\<forall>i. i < 0 \<or> int (length xs) \<le> i \<longrightarrow>
            results (snd (addResults sw M (sink_init r) xs)) i = r i)
      \<and> (\<forall>k < length xs. int k < M \<longrightarrow>
            results (snd (addResults sw M (sink_init r) xs)) (int k) = ?f (xs ! k))
      \<and> length (filter id (fst (addResults sw M (sink_init r) xs))) \<le> nat M"
    if n: "length xs < 2 ^ 31"
  proof -
    have len: "0 + length xs \<le> 2 ^ 31" using n by simp
    have f: "fst (addResults sw M (sink_init r) xs) = map (\<lambda>k. int k < M) [0 ..< length xs]"
      using addResults_flags [OF init(1) len, of sw M] by simp
    have out: "\<forall>i. i < 0 \<or> int (length xs) \<le> i \<longrightarrow>
            results (snd (addResults sw M (sink_init r) xs)) i = r i"
      using addResults_outside [OF init(1) len, of _ sw M] init(2) by simp
    have st: "results (snd (addResult sw M s' c)) (sint (numResults s')) = ?f c"
      if "sint (numResults s') < M" for s' c
      using addResult_stored [OF that, of sw c] by simp
    have at: "\<forall>k < length xs. int k < M \<longrightarrow>
            results (snd (addResults sw M (sink_init r) xs)) (int k) = ?f (xs ! k)"
      using addResults_at [of M sw ?f, OF st init(1) len] by simp
    have cnt: "length (filter id (fst (addResults sw M (sink_init r) xs))) \<le> nat M"
      unfolding f by (rule accepted_count)
    show ?thesis using f out at cnt by blast
  qed
  show ?thesis
    using addResult_fst [of sw M s res] one beyond seq
    by blast
qed

theorem addResult_bounded_witness:
  "length [sample_contact 1, sample_contact 2, sample_contact 3] < 2 ^ 31
   \<and> (2::int) \<le> 2
   \<and> fst (addResults True 2 (sink_init (\<lambda>_. sample_contact 0))
            [sample_contact 1, sample_contact 2, sample_contact 3]) = [True, True, False]
   \<and> map (results (snd (addResults True 2 (sink_init (\<lambda>_. sample_contact 0))
            [sample_contact 1, sample_contact 2, sample_contact 3]))) [-1, 0, 1, 2, 3]
       = [sample_contact 0,
          \<lparr>posA = Vec3 0 1 0, posB = Vec3 1 0 0, normOnB = Vec3 0 0 (- 1),
           colliderA = 2, colliderB = 1, depth = - 1\<rparr>,
          \<lparr>posA = Vec3 0 2 0, posB = Vec3 2 0 0, normOnB = Vec3 0 0 (- 1),
           colliderA = 3, colliderB = 2, depth = - 2\<rparr>,
          sample_contact 0, sample_contact 0]
   \<and> results (snd (addResult True 2 (sink_init (\<lambda>_. sample_contact 0)) (sample_contact 1)))
       = (\<lambda>_. sample_contact 0)
           (0 := \<lparr>posA = Vec3 0 1 0, posB = Vec3 1 0 0, normOnB = Vec3 0 0 (- 1),
                   colliderA = 2, colliderB = 1, depth = - 1\<rparr>)"
  using addResult_bounded [of True 2 "sink_init (\<lambda>_. sample_contact 0)" "sample_contact 1"
      "\<lambda>_. sample_contact 0" "[sample_contact 1, sample_contact 2, sample_contact 3]"]
  by (simp add: addResult_def addResult_swap_def sink_init_def Let_def sample_contact_def
      vneg_def fun_eq_iff)

text \<open>
  Claim C5. When the reserved index is within capacity, both adapters accept the contact
  and advance the counter alike; the plain adapter stores the contact as it is, and the
  swapped adapter (\<^verbatim>\<open>SwapResults = true\<close>) stores in the same slot that contact with
  \<^verbatim>\<open>posA\<close> and \<^verbatim>\<open>posB\<close> exchanged, \<^verbatim>\<open>colliderA\<close> and \<^verbatim>\<open>colliderB\<close>
  exchanged, the normal negated and the depth unchanged. All other memory is equal.
\<close>

theorem addResult_swap_mirror:
  assumes "sint (numResults s) < M"
  shows "fst (addResult True M s res) \<and> fst (addResult False M s res)
   \<and> numResults (snd (addResult True M s res)) = numResults (snd (addResult False M s res))
   \<and> results (snd (addResult False M s res)) (sint (numResults s)) = res
   \<and> results (snd (addResult True M s res))
       = (results (snd (addResult False M s res)))(sint (numResults s) :=
           \<lparr>posA = posB (results (snd (addResult False M s res)) (sint (numResults s))),
            posB = posA (results (snd (addResult False M s res)) (sint (numResults s))),
            normOnB = vneg (normOnB (results (snd (addResult False M s res))
                                        (sint (numResults s)))),
            colliderA = colliderB (results (snd (addResult False M s res))
                                        (sint (numResults s))),
            colliderB = colliderA (results (snd (addResult False M s res))
                                        (sint (numResults s))),
            depth = depth (results (snd (addResult False M s res)) (sint (numResults s)))\<rparr>)"
  using assms
  by (simp add: addResult_def addResult_plain_def addResult_swap_def Let_def fun_eq_iff)

theorem addResult_swap_mirror_witness:
  "sint (numResults (sink_init (\<lambda>_. sample_contact 0))) < 2
   \<and> results (snd (addResult False 2 (sink_init (\<lambda>_. sample_contact 0)) (sample_contact 5))) 0
       = \<lparr>posA = Vec3 5 0 0, posB = Vec3 0 5 0, normOnB = Vec3 0 0 1,
          colliderA = 5, colliderB = 6, depth = - 5\<rparr>
   \<and> results (snd (addResult True 2 (sink_init (\<lambda>_. sample_contact 0)) (sample_contact 5))) 0
       = \<lparr>posA = Vec3 0 5 0, posB = Vec3 5 0 0, normOnB = Vec3 0 0 (- 1),
          colliderA = 6, colliderB = 5, depth = - 5\<rparr>"
proof -
  have h: "sint (numResults (sink_init (\<lambda>_. sample_contact 0))) < 2"
    by (simp add: sink_init_def)
  show ?thesis
    using h addResult_swap_mirror [OF h, of "sample_contact 5"]
    by (simp add: sink_init_def sample_contact_def vneg_def)
qed

section \<open>Properties of the geometry checkers\<close>

text \<open>
  Claim C8. When the triangle built from the three vertex positions, with the averaged
  margin and penetration, is not valid, the sphere-triangle \<^verbatim>\<open>checkCollide\<close> returns
  false and leaves the result object untouched: \<^verbatim>\<open>checkSphereTriangle\<close> is not called
  and no contact is produced.
\<close>

theorem checkCollide_invalid_triangle:
  assumes "\<not> valid (CheckTriangle (pos (v1 (vertices (col b) 0))) (pos (v1 (vertices (col b) 1)))
              (pos (v1 (vertices (col b) 2)))
              ((marginMultiplier (v1 (vertices (col b) 0))
                 + marginMultiplier (v1 (vertices (col b) 1))
                 + marginMultiplier (v1 (vertices (col b) 2))) / 3 * margin sp1)
              (penetration sp1 *
                ((marginMultiplier (v1 (vertices (col b) 0))
                   + marginMultiplier (v1 (vertices (col b) 1))
                   + marginMultiplier (v1 (vertices (col b) 2))) / 3)))"
  shows "checkCollide_PerTriangleShape CheckTriangle valid checkSphereTriangle col v0 v1 sp0 sp1
           a b res = (False, res)"
  using assms by (simp add: checkCollide_PerTriangleShape_def Let_def)

theorem checkCollide_invalid_triangle_witness:
  "\<not> sample_valid (sample_triangle (Vec3 0 0 0) (Vec3 0 0 0) (Vec3 0 0 0) ((1 + 1 + 1) / 3 * 1)
                     (1 * ((1 + 1 + 1) / 3)))
   \<and> checkCollide_PerTriangleShape sample_triangle sample_valid
        (\<lambda>s r t res. (True, res\<lparr>depth := - 1\<rparr>)) sample_col
        (\<lambda>k. \<lparr>pos = Vec3 0 0 0, marginMultiplier = 1\<rparr>)
        (\<lambda>k. \<lparr>pos = Vec3 0 0 0, marginMultiplier = 1\<rparr>)
        \<lparr>margin = 1\<rparr> \<lparr>margin = 1, penetration = 1\<rparr> 0 1 (sample_contact 0)
       = (False, sample_contact 0)"
proof (rule conjI)
  show "\<not> sample_valid (sample_triangle (Vec3 0 0 0) (Vec3 0 0 0) (Vec3 0 0 0)
              ((1 + 1 + 1) / 3 * 1) (1 * ((1 + 1 + 1) / 3)))"
    by (simp add: sample_valid_def sample_triangle_def vcross_def vsub_def)
  show "checkCollide_PerTriangleShape sample_triangle sample_valid
        (\<lambda>s r t res. (True, res\<lparr>depth := - 1\<rparr>)) sample_col
        (\<lambda>k. \<lparr>pos = Vec3 0 0 0, marginMultiplier = 1\<rparr>)
        (\<lambda>k. \<lparr>pos = Vec3 0 0 0, marginMultiplier = 1\<rparr>)
        \<lparr>margin = 1\<rparr> \<lparr>margin = 1, penetration = 1\<rparr> 0 1 (sample_contact 0)
       = (False, sample_contact 0)"
    by (rule checkCollide_invalid_triangle)
      (simp add: sample_valid_def sample_triangle_def vcross_def vsub_def)
qed

lemma vlen_axis: "vlen (Vec3 0 0 z) = \<bar>z\<bar>" "vlen (Vec3 x 0 0) = \<bar>x\<bar>"
  by (simp_all add: vlen_def)

text \<open>
  Claim C1. The sphere-sphere \<^verbatim>\<open>checkCollide\<close> reads the vertex of collider \<open>a\<close> from
  \<^verbatim>\<open>v0\<close> for both centres and multiplies both margin multipliers by \<^verbatim>\<open>sp0->margin\<close>:
  its answer does not depend on the second body's vertex buffer \<open>v1\<close> nor on its shape
  properties \<open>sp1\<close>. For two spheres of radius 1 at \<open>(0,0,0)\<close> and \<open>(1.5,0,0)\<close>, whatever
  \<^verbatim>\<open>checkSphereSphere\<close> does, it is given the centre \<open>(0,0,0)\<close> twice and never sees
  \<open>(1.5,0,0)\<close>. The test of section 4.1 then finds a coincident pair and reports no
  contact; given the two centres it answers depth \<open>-0.5\<close> and normal \<open>(1,0,0)\<close>.
\<close>

theorem checkCollide_PerVertexShape_reads_only_a:
  "checkCollide_PerVertexShape css col v0 v1 sp0 sp1 a b res
     = checkCollide_PerVertexShape css col v0 v1' sp0 sp1' a b res
   \<and> checkCollide_PerVertexShape css' sample_col
        (\<lambda>k. \<lparr>pos = Vec3 0 0 0, marginMultiplier = 1\<rparr>)
        (\<lambda>k. \<lparr>pos = Vec3 (3 / 2) 0 0, marginMultiplier = 1\<rparr>)
        \<lparr>margin = 1\<rparr> \<lparr>margin = 1\<rparr> 0 1 res'
       = (fst (css' (Vec3 0 0 0) (Vec3 0 0 0) 1 1 res'),
          (snd (css' (Vec3 0 0 0) (Vec3 0 0 0) 1 1 res'))\<lparr>colliderA := 0, colliderB := 1\<rparr>)
   \<and> \<not> fst (checkCollide_PerVertexShape checkSphereSphere_spec sample_col
        (\<lambda>k. \<lparr>pos = Vec3 0 0 0, marginMultiplier = 1\<rparr>)
        (\<lambda>k. \<lparr>pos = Vec3 (3 / 2) 0 0, marginMultiplier = 1\<rparr>)
        \<lparr>margin = 1\<rparr> \<lparr>margin = 1\<rparr> 0 1 (sample_contact 0))
   \<and> checkSphereSphere_spec (Vec3 0 0 0) (Vec3 (3 / 2) 0 0) 1 1 (sample_contact 0)
       = (True, (sample_contact 0)\<lparr>normOnB := Vec3 1 0 0, depth := - 1 / 2\<rparr>)"
proof (intro conjI)
  show "checkCollide_PerVertexShape css col v0 v1 sp0 sp1 a b res
     = checkCollide_PerVertexShape css col v0 v1' sp0 sp1' a b res"
    by (simp add: checkCollide_PerVertexShape_def)
  show "checkCollide_PerVertexShape css' sample_col
        (\<lambda>k. \<lparr>pos = Vec3 0 0 0, marginMultiplier = 1\<rparr>)
        (\<lambda>k. \<lparr>pos = Vec3 (3 / 2) 0 0, marginMultiplier = 1\<rparr>)
        \<lparr>margin = 1\<rparr> \<lparr>margin = 1\<rparr> 0 1 res'
       = (fst (css' (Vec3 0 0 0) (Vec3 0 0 0) 1 1 res'),
          (snd (css' (Vec3 0 0 0) (Vec3 0 0 0) 1 1 res'))\<lparr>colliderA := 0, colliderB := 1\<rparr>)"
    by (simp add: checkCollide_PerVertexShape_def Let_def split: prod.splits)
  show "\<not> fst (checkCollide_PerVertexShape checkSphereSphere_spec sample_col
        (\<lambda>k. \<lparr>pos = Vec3 0 0 0, marginMultiplier = 1\<rparr>)
        (\<lambda>k. \<lparr>pos = Vec3 (3 / 2) 0 0, marginMultiplier = 1\<rparr>)
        \<lparr>margin = 1\<rparr> \<lparr>margin = 1\<rparr> 0 1 (sample_contact 0))"
    by (simp add: checkCollide_PerVertexShape_def checkSphereSphere_spec_def Let_def vsub_def
        vlen_axis)
  show "checkSphereSphere_spec (Vec3 0 0 0) (Vec3 (3 / 2) 0 0) 1 1 (sample_contact 0)
       = (True, (sample_contact 0)\<lparr>normOnB := Vec3 1 0 0, depth := - 1 / 2\<rparr>)"
    by (simp add: checkSphereSphere_spec_def Let_def vsub_def vscale_def vlen_axis
        sample_contact_def)
qed

section \<open>Properties of the merge buffer\<close>

lemma std_max_eq: "std_max (a::'f::linorder) b = max a b"
  by (auto simp: std_max_def max_def)

lemma MergeCell_update_all:
  "c\<lparr>weight := w, normal := n, pos0 := p, pos1 := q\<rparr>
     = \<lparr>weight = w, normal = n, pos0 = p, pos1 = q\<rparr>"
  by (cases c) simp

lemma fold_if_map_filter:
  "fold (\<lambda>x s. if P x then f (g x) s else s) xs s = fold f (map g (filter P xs)) s"
  by (induction xs arbitrary: s) simp_all

lemma fold_if_concat_filter:
  "fold (\<lambda>x s. if Q x then fold f (h x) s else s) xs s
     = fold f (concat (map h (filter Q xs))) s"
  by (induction xs arbitrary: s) simp_all

lemma doMerge_jb_accumulate:
  "doMerge_jb a b res fl idx0 =
     (\<lambda>jb buf.
        if weightThreshold (m_skinnedBones (m_owner b) ! getColliderBoneIndex b (colliderB res) jb)
              < getColliderBoneWeight b (colliderB res) jb
            \<and> \<not> (isKinematic (m_skinnedBones (m_owner a) ! idx0)
                  \<and> isKinematic (m_skinnedBones (m_owner b)
                                   ! getColliderBoneIndex b (colliderB res) jb))
        then accumulate res fl (idx0, getColliderBoneIndex b (colliderB res) jb) buf
        else buf)"
  by (intro ext) (auto simp: doMerge_jb_def accumulate_def Let_def not_le MergeCell_update_all)

lemma doMerge_ib_accumulate:
  "doMerge_ib a b res fl ib buf =
     (if weightThreshold (m_skinnedBones (m_owner a) ! getColliderBoneIndex a (colliderA res) ib)
             < getColliderBoneWeight a (colliderA res) ib
        then fold (accumulate res fl)
               (map (\<lambda>jb. (getColliderBoneIndex a (colliderA res) ib,
                            getColliderBoneIndex b (colliderB res) jb))
                  (filter (\<lambda>jb.
                     weightThreshold (m_skinnedBones (m_owner b)
                                        ! getColliderBoneIndex b (colliderB res) jb)
                        < getColliderBoneWeight b (colliderB res) jb
                     \<and> \<not> (isKinematic (m_skinnedBones (m_owner a)
                                          ! getColliderBoneIndex a (colliderA res) ib)
                           \<and> isKinematic (m_skinnedBones (m_owner b)
                                            ! getColliderBoneIndex b (colliderB res) jb)))
                     [0 ..< nat (getBonePerCollider b)])) buf
        else buf)"
  (is "_ = (if ?Q then ?acc else buf)")
proof (cases ?Q)
  case True
  have "doMerge_ib a b res fl ib buf
          = fold (doMerge_jb a b res fl (getColliderBoneIndex a (colliderA res) ib))
              [0 ..< nat (getBonePerCollider b)] buf"
    using True by (simp add: doMerge_ib_def Let_def)
  also have "\<dots> = ?acc"
    unfolding doMerge_jb_accumulate by (rule fold_if_map_filter)
  finally show ?thesis using True by (simp only: if_True)
next
  case False
  have "doMerge_ib a b res fl ib buf = buf"
    using False by (simp add: doMerge_ib_def Let_def)
  then show ?thesis using False by (simp only: if_False)
qed

lemma doMerge_contact_spec:
  "fold (doMerge_ib a b res fl) [0 ..< nat (getBonePerCollider a)] buf
     = fold (accumulate res fl) (eligible_bone_pairs a b res) buf"
proof -
  have "doMerge_ib a b res fl = (\<lambda>ib buf. doMerge_ib a b res fl ib buf)" by simp
  then show ?thesis
    unfolding eligible_bone_pairs_def
    by (simp only: doMerge_ib_accumulate fold_if_concat_filter)
qed

lemma doMerge_loop_spec:
  "\<forall>i \<in> set idxs. int i < len \<Longrightarrow>
   doMerge_loop eps col len a b collision idxs buf =
     Inr (fold (\<lambda>res. fold (accumulate res (contact_flexible col res)) (eligible_bone_pairs a b res))
       (takeWhile (\<lambda>res. depth res < - eps \<and> \<not> contact_flexible col res < eps)
          (map (\<lambda>i. collision (int i)) idxs))
       buf)"
proof (induction idxs arbitrary: buf)
  case Nil
  show ?case by simp
next
  case (Cons i idxs)
  have fl: "std_max (flexible (col (colliderA r))) (flexible (col (colliderB r)))
              = contact_flexible col r" for r :: "('a, 'b) CollisionResult"
    by (simp add: std_max_eq contact_flexible_def)
  have i: "int i < len" and rest: "\<forall>i \<in> set idxs. int i < len"
    using Cons.prems by simp_all
  note IH = Cons.IH [OF rest]
  show ?case
  proof (cases "depth (collision (int i)) < - eps")
    case False
    then have "- eps \<le> depth (collision (int i))" by simp
    then show ?thesis using i False by (simp add: Let_def)
  next
    case deep: True
    then have nd: "\<not> - eps \<le> depth (collision (int i))" by simp
    show ?thesis
    proof (cases "contact_flexible col (collision (int i)) < eps")
      case True
      then show ?thesis using i nd by (simp add: Let_def fl)
    next
      case False
      then show ?thesis using i nd deep by (simp add: Let_def fl doMerge_contact_spec IH)
    qed
  qed
qed

text \<open>
  Claim C2. As long as \<open>count\<close> does not exceed the array, \<^verbatim>\<open>doMerge\<close> reads no
  element outside it and computes what section 4.6 says: the contacts are taken in
  index order up to, and without, the first one whose depth is not below
  \<open>- FLT_EPSILON\<close> or whose \<open>flexible = max(colliderA.flexible, colliderB.flexible)\<close> is
  below \<open>FLT_EPSILON\<close>; nothing after that contact is read. Each contact taken adds, for
  every bone of collider A whose weight exceeds its threshold and every bone of collider
  B whose weight exceeds its threshold, both bones kinematic excepted, to the cell of
  the two bone indices: \<open>weight += w2\<close>, \<open>normal += normOnB * w * w2\<close>,
  \<open>pos[0] += posA * w2\<close>, \<open>pos[1] += posB * w2\<close>, with \<open>w = flexible * depth\<close> and
  \<open>w2 = w * w\<close>.
\<close>

theorem doMerge_refines_spec:
  assumes "count \<le> len"
  shows "doMerge eps col len a b collision count buf
           = Inr (doMerge_spec eps col a b collision count buf)"
  unfolding doMerge_def doMerge_spec_def
  by (rule doMerge_loop_spec) (use assms in auto)

theorem doMerge_refines_spec_witness:
  "(2::int) \<le> 2
   \<and> (case doMerge sample_eps sample_col 2 (sample_shape sample_body0) (sample_shape sample_body1)
              (\<lambda>i. sample_contact (1 - i)) 2 alloc of
         Inl e \<Rightarrow> False
       | Inr m \<Rightarrow>
           m 0 0 = \<lparr>weight = 1, normal = Vec3 0 0 (- 1), pos0 = Vec3 1 0 0, pos1 = Vec3 0 1 0\<rparr>
           \<and> m 0 1 = alloc 0 1 \<and> m 1 0 = alloc 1 0)"
  using doMerge_refines_spec [of 2 2 sample_eps sample_col "sample_shape sample_body0"
      "sample_shape sample_body1" "\<lambda>i. sample_contact (1 - i)" alloc]
  by (simp add: doMerge_spec_def eligible_bone_pairs_def accumulate_def contact_flexible_def
      sample_contact_def sample_col_def sample_eps_def sample_body0_def sample_body1_def
      sample_shape_def alloc_def vadd_def vscale_def Let_def upt_rec)

lemma doMerge_unclamped_reads_out_of_bounds:
  "doMerge sample_eps sample_col 2 (sample_shape sample_body0) (sample_shape sample_body1)
     (\<lambda>i. sample_contact 1) 3 alloc = Inl OutOfBounds"
  by (simp add: doMerge_def sample_contact_def sample_col_def sample_eps_def std_max_def
      Let_def upt_rec)

lemma doMerge_in_bounds:
  "count \<le> len \<Longrightarrow> \<exists>buf1. doMerge eps col len a b collision count buf = Inr buf1"
  unfolding doMerge_def
  by (rule exI, rule doMerge_loop_spec) auto

lemma std_min_le: "std_min (n::int) M \<le> M"
  by (simp add: std_min_def)

lemma processCollision_T_in_bounds:
  "\<exists>r. processCollision_T chk M eps col s0 s1 merge collision = Inr r"
proof -
  obtain n c1 where c: "chk s0 s1 collision = (n, c1)" by (cases "chk s0 s1 collision")
  obtain buf1 where "doMerge eps col M s0 s1 c1 (std_min n M) merge = Inr buf1"
    using doMerge_in_bounds [OF std_min_le] by blast
  then show ?thesis by (simp add: processCollision_T_def c Let_def)
qed

text \<open>
  Claim C9. The count that \<^verbatim>\<open>processCollision\<close> passes to \<^verbatim>\<open>doMerge\<close> is
  \<^verbatim>\<open>std::min\<close> of the checker's return value and \<^verbatim>\<open>MaxCollisionCount\<close>, hence at
  most \<^verbatim>\<open>MaxCollisionCount\<close>, and with such a count \<^verbatim>\<open>doMerge\<close> reads no element of
  the \<^verbatim>\<open>MaxCollisionCount\<close>-entry array out of bounds: neither the template nor the
  entry point ever ends in \<open>OutOfBounds\<close>, whatever the checkers return.
\<close>

theorem processCollision_in_bounds:
  "std_min n M \<le> M
   \<and> doMerge eps col M s0 s1 collision (std_min n M) merge \<noteq> Inl OutOfBounds
   \<and> processCollision_T chk M eps col s0 s1 merge collision \<noteq> Inl OutOfBounds
   \<and> processCollision chkVV chkVT chkTV M eps col blt garbage body0 shape0 body1 shape1
        \<noteq> Inl OutOfBounds"
proof -
  have T: "processCollision_T c M eps col x y m g \<noteq> Inl e" for c x y m g e
    using processCollision_T_in_bounds [of c M eps col x y m g] by auto
  have D: "doMerge eps col M s0 s1 collision (std_min n M) merge \<noteq> Inl OutOfBounds"
  proof -
    have "\<exists>buf1. doMerge eps col M s0 s1 collision (std_min n M) merge = Inr buf1"
      by (rule doMerge_in_bounds) (rule std_min_le)
    then show ?thesis by auto
  qed
  have P: "processCollision chkVV chkVT chkTV M eps col blt garbage body0 shape0 body1 shape1
        \<noteq> Inl OutOfBounds"
    unfolding processCollision_def Let_def
    by (auto split: option.splits sum.splits prod.splits simp: T)
  show ?thesis using std_min_le T D P by blast
qed

section \<open>Properties of the manifold emitter\<close>

lemma apply_merge_call:
  assumes "c \<in> set (apply_merge blt eps body0 body1 merge)"
  shows "\<exists>i < length (m_skinnedBones body0). \<exists>j < length (m_skinnedBones body1).
           canCollideWith body1 (ptr (m_skinnedBones body0 ! i))
           \<and> c \<in> set (apply_j blt eps body0 body1 merge i j)"
proof -
  from assms obtain i where i: "i < length (m_skinnedBones body0)"
      and ci: "c \<in> set (apply_i blt eps body0 body1 merge i)"
    by (auto simp: apply_merge_def)
  from ci have can: "canCollideWith body1 (ptr (m_skinnedBones body0 ! i))"
    by (auto simp: apply_i_def split: if_splits)
  with ci obtain j where "j < length (m_skinnedBones body1)"
      and "c \<in> set (apply_j blt eps body0 body1 merge i j)"
    by (auto simp: apply_i_def)
  with i can show ?thesis by blast
qed

lemma apply_j_call:
  assumes "c \<in> set (apply_j blt eps body0 body1 merge i j)"
  shows "canCollideWith body0 (ptr (m_skinnedBones body1 ! j))
     \<and> \<not> weight (merge i j) < eps
     \<and> \<not> (isKinematic (m_skinnedBones body0 ! i) \<and> isKinematic (m_skinnedBones body1 ! j))
     \<and> ptr (m_skinnedBones body0 ! i) \<noteq> ptr (m_skinnedBones body1 ! j)
     \<and> (c = GetNewManifold (ptr (m_skinnedBones body0 ! i)) (ptr (m_skinnedBones body1 ! j))
        \<or> (\<exists>pt. c = AddManifoldPoint (ptr (m_skinnedBones body0 ! i))
                       (ptr (m_skinnedBones body1 ! j)) pt))"
  using assms by (auto simp: apply_j_def Let_def split: if_splits)

lemma sample_apply_merge:
  "apply_merge sample_bullet sample_eps sample_body0 sample_body1 sample_merge
       = [GetNewManifold 0 2,
          AddManifoldPoint 0 2
            \<lparr>m_localPointA = Vec3 1 0 0, m_localPointB = Vec3 0 1 0,
             m_normalWorldOnB = Vec3 0 0 (- 1), m_distance1 = - 1,
             m_positionWorldOnA = Vec3 1 0 0, m_positionWorldOnB = Vec3 0 1 0,
             m_combinedFriction = 1 / 4, m_combinedRestitution = 0,
             m_combinedRollingFriction = 0\<rparr>,
          GetNewManifold 1 0,
          AddManifoldPoint 1 0
            \<lparr>m_localPointA = Vec3 1 0 0, m_localPointB = Vec3 0 1 0,
             m_normalWorldOnB = Vec3 0 0 (- 1), m_distance1 = - 1,
             m_positionWorldOnA = Vec3 1 0 0, m_positionWorldOnB = Vec3 0 1 0,
             m_combinedFriction = 1 / 4, m_combinedRestitution = 0,
             m_combinedRollingFriction = 0\<rparr>]"
  by (simp add: apply_merge_def apply_i_def apply_j_def sample_bullet_def sample_eps_def
      sample_body0_def sample_body1_def sample_merge_def Let_def upt_rec vscale_def vneg_def
      vlen_axis)

text \<open>
  Claim C6. For a bone pair whose two bones are both kinematic, or whose two bones point
  to the same rigid body, \<^verbatim>\<open>apply\<close> makes no call at all. Every manifold point that
  \<^verbatim>\<open>apply\<close> adds is added for a pair of bones, one of each body, that are not both
  kinematic and that point to two different rigid bodies.
\<close>

theorem apply_no_kinematic_or_self_pair:
  "((isKinematic (m_skinnedBones body0 ! i) \<and> isKinematic (m_skinnedBones body1 ! j)
      \<or> ptr (m_skinnedBones body0 ! i) = ptr (m_skinnedBones body1 ! j))
     \<longrightarrow> apply_j blt eps body0 body1 merge i j = [])
   \<and> (\<forall>rb0 rb1 pt. AddManifoldPoint rb0 rb1 pt \<in> set (apply_merge blt eps body0 body1 merge) \<longrightarrow>
         rb0 \<noteq> rb1
         \<and> (\<exists>i < length (m_skinnedBones body0). \<exists>j < length (m_skinnedBones body1).
               rb0 = ptr (m_skinnedBones body0 ! i) \<and> rb1 = ptr (m_skinnedBones body1 ! j)
               \<and> \<not> (isKinematic (m_skinnedBones body0 ! i)
                     \<and> isKinematic (m_skinnedBones body1 ! j))
               \<and> AddManifoldPoint rb0 rb1 pt \<in> set (apply_j blt eps body0 body1 merge i j)))"
proof -
  have skip: "(isKinematic (m_skinnedBones body0 ! i) \<and> isKinematic (m_skinnedBones body1 ! j)
      \<or> ptr (m_skinnedBones body0 ! i) = ptr (m_skinnedBones body1 ! j))
     \<longrightarrow> apply_j blt eps body0 body1 merge i j = []"
    by (auto simp: apply_j_def Let_def)
  have emitted: "rb0 \<noteq> rb1
         \<and> (\<exists>i < length (m_skinnedBones body0). \<exists>j < length (m_skinnedBones body1).
               rb0 = ptr (m_skinnedBones body0 ! i) \<and> rb1 = ptr (m_skinnedBones body1 ! j)
               \<and> \<not> (isKinematic (m_skinnedBones body0 ! i)
                     \<and> isKinematic (m_skinnedBones body1 ! j))
               \<and> AddManifoldPoint rb0 rb1 pt \<in> set (apply_j blt eps body0 body1 merge i j))"
    if "AddManifoldPoint rb0 rb1 pt \<in> set (apply_merge blt eps body0 body1 merge)"
    for rb0 rb1 pt
  proof -
    from apply_merge_call [OF that] obtain i j where
      ij: "i < length (m_skinnedBones body0)" "j < length (m_skinnedBones body1)"
      and c: "AddManifoldPoint rb0 rb1 pt \<in> set (apply_j blt eps body0 body1 merge i j)"
      by blast
    from apply_j_call [OF c] have
      "\<not> (isKinematic (m_skinnedBones body0 ! i) \<and> isKinematic (m_skinnedBones body1 ! j))"
      "ptr (m_skinnedBones body0 ! i) \<noteq> ptr (m_skinnedBones body1 ! j)"
      "rb0 = ptr (m_skinnedBones body0 ! i)" "rb1 = ptr (m_skinnedBones body1 ! j)"
      by auto
    with ij c show ?thesis by blast
  qed
  show ?thesis using skip emitted by blast
qed

theorem apply_no_kinematic_or_self_pair_witness:
  "isKinematic (m_skinnedBones sample_body0 ! 1) \<and> isKinematic (m_skinnedBones sample_body1 ! 0)
   \<and> apply_j sample_bullet sample_eps sample_body0 sample_body1 sample_merge 1 0 = []
   \<and> ptr (m_skinnedBones sample_body0 ! 0) = ptr (m_skinnedBones sample_body1 ! 1)
   \<and> apply_j sample_bullet sample_eps sample_body0 sample_body1 sample_merge 0 1 = []
   \<and> AddManifoldPoint 1 0
            \<lparr>m_localPointA = Vec3 1 0 0, m_localPointB = Vec3 0 1 0,
             m_normalWorldOnB = Vec3 0 0 (- 1), m_distance1 = - 1,
             m_positionWorldOnA = Vec3 1 0 0, m_positionWorldOnB = Vec3 0 1 0,
             m_combinedFriction = 1 / 4, m_combinedRestitution = 0,
             m_combinedRollingFriction = 0\<rparr>
         \<in> set (apply_merge sample_bullet sample_eps sample_body0 sample_body1 sample_merge)
   \<and> (1::nat) \<noteq> 0"
proof -
  have kin: "isKinematic (m_skinnedBones sample_body0 ! 1)"
      "isKinematic (m_skinnedBones sample_body1 ! 0)"
    by (simp_all add: sample_body0_def sample_body1_def)
  have same: "ptr (m_skinnedBones sample_body0 ! 0) = ptr (m_skinnedBones sample_body1 ! 1)"
    by (simp add: sample_body0_def sample_body1_def)
  have pt: "AddManifoldPoint 1 0
            \<lparr>m_localPointA = Vec3 1 0 0, m_localPointB = Vec3 0 1 0,
             m_normalWorldOnB = Vec3 0 0 (- 1), m_distance1 = - 1,
             m_positionWorldOnA = Vec3 1 0 0, m_positionWorldOnB = Vec3 0 1 0,
             m_combinedFriction = 1 / 4, m_combinedRestitution = 0,
             m_combinedRollingFriction = 0\<rparr>
         \<in> set (apply_merge sample_bullet sample_eps sample_body0 sample_body1 sample_merge)"
    by (simp add: sample_apply_merge)
  have a: "apply_j sample_bullet sample_eps sample_body0 sample_body1 sample_merge 1 0 = []"
    using kin apply_no_kinematic_or_self_pair [of sample_body0 1 sample_body1 0 sample_bullet
        sample_eps sample_merge]
    by blast
  have b: "apply_j sample_bullet sample_eps sample_body0 sample_body1 sample_merge 0 1 = []"
    using same apply_no_kinematic_or_self_pair [of sample_body0 0 sample_body1 1 sample_bullet
        sample_eps sample_merge]
    by blast
  have c: "(1::nat) \<noteq> 0"
    using pt apply_no_kinematic_or_self_pair [of sample_body0 0 sample_body1 0 sample_bullet
        sample_eps sample_merge]
    by blast
  show ?thesis using kin same pt a b c by blast
qed

text \<open>
  Claim C10. When \<^verbatim>\<open>body1\<close> cannot collide with the rigid body of bone \<open>i\<close> the whole
  row \<open>i\<close> is skipped, and when \<^verbatim>\<open>body0\<close> cannot collide with the rigid body of bone
  \<open>j\<close> the pair \<open>(i, j)\<close> is skipped, in both cases before a manifold is obtained.
  Every call that \<^verbatim>\<open>apply\<close> makes to the dispatcher, obtaining a manifold or adding
  a point, belongs to a bone pair that passes both checks.
\<close>

theorem apply_only_collidable:
  "(\<not> canCollideWith body1 (ptr (m_skinnedBones body0 ! i))
      \<longrightarrow> apply_i blt eps body0 body1 merge i = [])
   \<and> (\<not> canCollideWith body0 (ptr (m_skinnedBones body1 ! j))
      \<longrightarrow> apply_j blt eps body0 body1 merge i j = [])
   \<and> (\<forall>c \<in> set (apply_merge blt eps body0 body1 merge).
        \<exists>i < length (m_skinnedBones body0). \<exists>j < length (m_skinnedBones body1).
          canCollideWith body1 (ptr (m_skinnedBones body0 ! i))
          \<and> canCollideWith body0 (ptr (m_skinnedBones body1 ! j))
          \<and> (c = GetNewManifold (ptr (m_skinnedBones body0 ! i)) (ptr (m_skinnedBones body1 ! j))
             \<or> (\<exists>pt. c = AddManifoldPoint (ptr (m_skinnedBones body0 ! i))
                            (ptr (m_skinnedBones body1 ! j)) pt)))"
proof -
  have row: "\<not> canCollideWith body1 (ptr (m_skinnedBones body0 ! i))
      \<longrightarrow> apply_i blt eps body0 body1 merge i = []"
    by (simp add: apply_i_def)
  have cell: "\<not> canCollideWith body0 (ptr (m_skinnedBones body1 ! j))
      \<longrightarrow> apply_j blt eps body0 body1 merge i j = []"
    by (simp add: apply_j_def)
  have calls: "\<exists>i < length (m_skinnedBones body0). \<exists>j < length (m_skinnedBones body1).
          canCollideWith body1 (ptr (m_skinnedBones body0 ! i))
          \<and> canCollideWith body0 (ptr (m_skinnedBones body1 ! j))
          \<and> (c = GetNewManifold (ptr (m_skinnedBones body0 ! i)) (ptr (m_skinnedBones body1 ! j))
             \<or> (\<exists>pt. c = AddManifoldPoint (ptr (m_skinnedBones body0 ! i))
                            (ptr (m_skinnedBones body1 ! j)) pt))"
    if "c \<in> set (apply_merge blt eps body0 body1 merge)" for c
  proof -
    from apply_merge_call [OF that] obtain i j where
      ij: "i < length (m_skinnedBones body0)" "j < length (m_skinnedBones body1)"
        "canCollideWith body1 (ptr (m_skinnedBones body0 ! i))"
      and c: "c \<in> set (apply_j blt eps body0 body1 merge i j)"
      by blast
    from apply_j_call [OF c] ij show ?thesis by blast
  qed
  show ?thesis using row cell calls by blast
qed

theorem apply_only_collidable_witness:
  "\<not> canCollideWith sample_body0 (ptr (m_skinnedBones sample_body1 ! 2))
   \<and> apply_j sample_bullet sample_eps sample_body0 sample_body1 sample_merge 0 2 = []
   \<and> apply_i sample_bullet sample_eps sample_body1 sample_body0 sample_merge 2 = []
   \<and> GetNewManifold 1 0
        \<in> set (apply_merge sample_bullet sample_eps sample_body0 sample_body1 sample_merge)
   \<and> (\<exists>i < length (m_skinnedBones sample_body0). \<exists>j < length (m_skinnedBones sample_body1).
          canCollideWith sample_body1 (ptr (m_skinnedBones sample_body0 ! i))
          \<and> canCollideWith sample_body0 (ptr (m_skinnedBones sample_body1 ! j))
          \<and> ptr (m_skinnedBones sample_body0 ! i) = 1
          \<and> ptr (m_skinnedBones sample_body1 ! j) = 0)"
proof -
  have h: "\<not> canCollideWith sample_body0 (ptr (m_skinnedBones sample_body1 ! 2))"
    by (simp add: sample_body0_def sample_body1_def)
  have m: "GetNewManifold 1 0
        \<in> set (apply_merge sample_bullet sample_eps sample_body0 sample_body1 sample_merge)"
    by (simp add: sample_apply_merge)
  have a: "apply_j sample_bullet sample_eps sample_body0 sample_body1 sample_merge 0 2 = []"
    using h apply_only_collidable [where ?body0.0 = sample_body0 and ?body1.0 = sample_body1
        and i = 0 and j = 2 and blt = sample_bullet and eps = sample_eps and merge = sample_merge,
        THEN conjunct2, THEN conjunct1]
    by (rule rev_mp)
  have b: "apply_i sample_bullet sample_eps sample_body1 sample_body0 sample_merge 2 = []"
    using h apply_only_collidable [where ?body0.0 = sample_body1 and ?body1.0 = sample_body0
        and i = 2 and j = 0 and blt = sample_bullet and eps = sample_eps and merge = sample_merge,
        THEN conjunct1]
    by (rule rev_mp)
  note t = apply_only_collidable [where ?body0.0 = sample_body0 and ?body1.0 = sample_body1
      and i = 0 and j = 0 and blt = sample_bullet and eps = sample_eps and merge = sample_merge,
      THEN conjunct2, THEN conjunct2, THEN bspec, OF m]
  then obtain i j where ij: "i < length (m_skinnedBones sample_body0)"
      "j < length (m_skinnedBones sample_body1)"
      "canCollideWith sample_body1 (ptr (m_skinnedBones sample_body0 ! i))"
      "canCollideWith sample_body0 (ptr (m_skinnedBones sample_body1 ! j))"
    and "GetNewManifold 1 0 = GetNewManifold (ptr (m_skinnedBones sample_body0 ! i))
                                 (ptr (m_skinnedBones sample_body1 ! j))
         \<or> (\<exists>pt. GetNewManifold 1 0 = AddManifoldPoint (ptr (m_skinnedBones sample_body0 ! i))
                            (ptr (m_skinnedBones sample_body1 ! j)) pt)"
    by blast
  then have "ptr (m_skinnedBones sample_body0 ! i) = 1" "ptr (m_skinnedBones sample_body1 ! j) = 0"
    by simp_all
  with ij have c: "\<exists>i < length (m_skinnedBones sample_body0).
        \<exists>j < length (m_skinnedBones sample_body1).
          canCollideWith sample_body1 (ptr (m_skinnedBones sample_body0 ! i))
          \<and> canCollideWith sample_body0 (ptr (m_skinnedBones sample_body1 ! j))
          \<and> ptr (m_skinnedBones sample_body0 ! i) = 1
          \<and> ptr (m_skinnedBones sample_body1 ! j) = 0"
    by blast
  show ?thesis using h m a b c by blast
qed

section \<open>Properties of the local broad phase\<close>

lemma hit_pure: "pure_checker cc \<Longrightarrow> hit cc t a b ij = hit cc t' a b ij"
  unfolding pure_checker_def hit_def by metis

lemma check_pair_fst:
  assumes "pure_checker cc"
  shows "fst (check_pair cc a b i j (res, t))
           = (case hit cc t0 a b (i, j) of None \<Rightarrow> res | Some c \<Rightarrow> keep_best res c)"
proof -
  have "fst (check_pair cc a b i j (res, t))
           = (case hit cc t a b (i, j) of None \<Rightarrow> res | Some c \<Rightarrow> keep_best res c)"
    by (auto simp: check_pair_def hit_def keep_best_def split: prod.splits option.splits)
  then show ?thesis using hit_pure [OF assms, of t a b "(i, j)" t0] by simp
qed

lemma fold_check_pairs:
  assumes "pure_checker cc"
  shows "fst (fold (\<lambda>ij. check_pair cc a b (fst ij) (snd ij)) ps st)
           = fold (\<lambda>c r. keep_best r c) (List.map_filter (hit cc t0 a b) ps) (fst st)"
proof (induction ps arbitrary: st)
  case Nil
  show ?case by simp
next
  case (Cons p ps)
  obtain res t where st: "st = (res, t)" by (cases st)
  have "fst (check_pair cc a b (fst p) (snd p) st)
          = (case hit cc t0 a b p of None \<Rightarrow> res | Some c \<Rightarrow> keep_best res c)"
    using check_pair_fst [OF assms, of a b "fst p" "snd p" res t t0] st by simp
  then show ?case
    by (simp add: Cons.IH st split: option.splits)
qed

lemma fold_product:
  "fold (\<lambda>i. fold (\<lambda>j. f i j) js) is st = fold (\<lambda>ij. f (fst ij) (snd ij)) (List.product is js) st"
proof (induction "is" arbitrary: st)
  case Nil
  show ?case by simp
next
  case (Cons i "is")
  have "fold (\<lambda>ij. f (fst ij) (snd ij)) (map (Pair i) js) st = fold (\<lambda>j. f i j) js st" for st
    by (simp add: fold_map comp_def)
  then show ?case by (simp add: Cons.IH)
qed

lemma fold_product_swapped:
  "fold (\<lambda>j. fold (\<lambda>i. f i j) is) js st
     = fold (\<lambda>ij. f (fst ij) (snd ij)) (map prod.swap (List.product js is)) st"
proof -
  have "fold (\<lambda>j. fold (\<lambda>i. f i j) is) js st
          = fold (\<lambda>ji. f (snd ji) (fst ji)) (List.product js is) st"
    by (rule fold_product [of "\<lambda>j i. f i j"])
  also have "\<dots> = fold (\<lambda>ij. f (fst ij) (snd ij)) (map prod.swap (List.product js is)) st"
    by (simp add: fold_map comp_def)
  finally show ?thesis .
qed

lemma fold_guard_filter:
  "fold (\<lambda>x st. if \<not> P x then st else g x st) xs st = fold g (filter P xs) st"
  by (induction xs arbitrary: st) simp_all

lemma product_filter:
  "List.product (filter P is) (filter Q js)
     = filter (\<lambda>ij. P (fst ij) \<and> Q (snd ij)) (List.product is js)"
proof (induction "is")
  case Nil
  show ?case by simp
next
  case (Cons i "is")
  have "map (Pair i) (filter Q js) = filter (\<lambda>ij. Q (snd ij)) (map (Pair i) js)"
    by (simp add: filter_map comp_def)
  moreover have "filter (\<lambda>ij. P (fst ij) \<and> Q (snd ij)) (map (Pair i) js)
      = (if P i then filter (\<lambda>ij. Q (snd ij)) (map (Pair i) js) else [])"
    by (simp add: filter_map comp_def)
  ultimately show ?case using Cons.IH by simp
qed

lemma map_filter_filter:
  "\<forall>p \<in> set ps. \<not> R p \<longrightarrow> h p = None \<Longrightarrow>
     List.map_filter h (filter R ps) = List.map_filter h ps"
  by (induction ps) (auto split: option.splits)

lemma set_map_filter: "set (List.map_filter h ps) = {c. \<exists>p \<in> set ps. h p = Some c}"
  by (induction ps) (auto split: option.splits)

lemma fold_keep_best_Some:
  "\<exists>r. fold (\<lambda>c r. keep_best r c) xs (Some r0) = Some r
        \<and> r \<in> set (r0 # xs) \<and> (\<forall>x \<in> set (r0 # xs). depth r \<le> depth x)"
proof (induction xs arbitrary: r0)
  case Nil
  show ?case by simp
next
  case (Cons x xs)
  show ?case
  proof (cases "depth r0 > depth x")
    case True
    from Cons.IH [of x] obtain r where
      r: "fold (\<lambda>c r. keep_best r c) xs (Some x) = Some r" "r \<in> set (x # xs)"
         "\<forall>y \<in> set (x # xs). depth r \<le> depth y"
      by blast
    then have "depth r \<le> depth r0" using True by auto
    with r True show ?thesis by (auto simp: keep_best_def)
  next
    case False
    from Cons.IH [of r0] obtain r where
      r: "fold (\<lambda>c r. keep_best r c) xs (Some r0) = Some r" "r \<in> set (r0 # xs)"
         "\<forall>y \<in> set (r0 # xs). depth r \<le> depth y"
      by blast
    then have "depth r \<le> depth x" using False by auto
    with r False show ?thesis by (auto simp: keep_best_def)
  qed
qed

lemma fold_keep_best_None:
  "(fold (\<lambda>c r. keep_best r c) xs None = None) = (xs = [])"
proof (cases xs)
  case Nil
  then show ?thesis by simp
next
  case (Cons x xs')
  from fold_keep_best_Some [of xs' x] show ?thesis using Cons by (auto simp: keep_best_def)
qed

lemma fold_keep_best_min:
  assumes "fold (\<lambda>c r. keep_best r c) xs None = Some r"
  shows "r \<in> set xs \<and> (\<forall>x \<in> set xs. depth r \<le> depth x)"
proof (cases xs)
  case Nil
  with assms show ?thesis by simp
next
  case (Cons x xs')
  from fold_keep_best_Some [of xs' x] assms show ?thesis using Cons by (auto simp: keep_best_def)
qed

lemma collideWith_sym: "collideWith p q \<Longrightarrow> collideWith q p"
  by (simp add: collideWith_def)

lemma collideWith_encloses:
  fixes p q x :: "'f::linorder Aabb"
  assumes "collideWith x q" "encloses p q"
  shows "collideWith x p"
  using assms unfolding collideWith_def encloses_def
  by (meson order_trans)

lemma encloses_merge_new: "encloses (aabb_merge p q) (q :: 'f::linorder Aabb)"
  by (simp add: encloses_def aabb_merge_def)

lemma encloses_merge_old:
  "encloses p x \<Longrightarrow> encloses (aabb_merge p q) (x :: 'f::linorder Aabb)"
  by (auto simp: encloses_def aabb_merge_def min_le_iff_disj le_max_iff_disj)

lemma fold_merge_keeps:
  "encloses acc x \<Longrightarrow> encloses (fold (\<lambda>i acc. aabb_merge acc (boxes i)) xs acc) x"
  by (induction xs arbitrary: acc) (simp_all add: encloses_merge_old)

lemma fold_merge_encloses:
  "i \<in> set xs \<Longrightarrow> encloses (fold (\<lambda>i acc. aabb_merge acc (boxes i)) xs acc) (boxes i)"
proof (induction xs arbitrary: acc)
  case Nil
  then show ?case by simp
next
  case (Cons x xs)
  show ?case
  proof (cases "i = x")
    case True
    then show ?thesis
      using fold_merge_keeps [OF encloses_merge_new, of boxes xs acc "boxes x"] by simp
  next
    case False
    with Cons show ?thesis by simp
  qed
qed

lemma scan_fold:
  "fold (\<lambda>i st. case st of (list, acc) \<Rightarrow>
             if collideWith (boxes i) box then (list @ [i], aabb_merge acc (boxes i))
             else (list, acc)) xs (l0, acc0)
     = (l0 @ filter (\<lambda>i. collideWith (boxes i) box) xs,
        fold (\<lambda>i acc. aabb_merge acc (boxes i)) (filter (\<lambda>i. collideWith (boxes i) box) xs) acc0)"
  by (induction xs arbitrary: l0 acc0) simp_all

lemma scan_eq:
  "scan boxes n box acc0
     = (filter (\<lambda>i. collideWith (boxes i) box) [0 ..< n],
        fold (\<lambda>i acc. aabb_merge acc (boxes i))
          (filter (\<lambda>i. collideWith (boxes i) box) [0 ..< n]) acc0)"
  unfolding scan_def by (simp add: scan_fold)

lemma hit_collide: "hit cc t a b (i, j) = Some c \<Longrightarrow> collideWith (aabb a i) (aabb b j)"
  by (simp add: hit_def split: if_splits)

lemma map_filter_empty: "\<forall>p \<in> set ps. h p = None \<Longrightarrow> List.map_filter h ps = []"
  by (induction ps) simp_all

lemma product_Nil_right: "List.product xs [] = []"
  by (induction xs) simp_all

lemma dispatch_loops_hits:
  assumes "pure_checker cc"
  shows "dispatch_loops cc t0 a b listA listB
           = fold (\<lambda>c r. keep_best r c)
               (List.map_filter (hit cc t0 a b) (List.product listA listB)) None"
proof (cases "listA \<noteq> [] \<and> listB \<noteq> []")
  case True
  then show ?thesis
    unfolding dispatch_loops_def
    by (simp add: fold_product fold_check_pairs [OF assms, of a b _ _ t0])
next
  case False
  then have "List.product listA listB = []" by (auto simp: product_Nil_right)
  with False show ?thesis
    unfolding dispatch_loops_def by auto
qed

lemma best_CPURefactored_hits:
  fixes a b :: "('f::linorder, 'c) ColliderTree"
  assumes pure: "pure_checker cc"
    and encl_b: "\<forall>j < (if tree_isKinematic a then dynCollider b else numCollider b).
                   encloses (aabbMe b) (aabb b j)"
  shows "best_CPURefactored cc t0 init_box invalid_box a b
           = fold (\<lambda>c r. keep_best r c)
               (List.map_filter (hit cc t0 a b)
                  (List.product [0 ..< (if tree_isKinematic b then dynCollider a else numCollider a)]
                                [0 ..< (if tree_isKinematic a then dynCollider b else numCollider b)]))
               None"
proof -
  define asize where "asize = (if tree_isKinematic b then dynCollider a else numCollider a)"
  define bsize where "bsize = (if tree_isKinematic a then dynCollider b else numCollider b)"
  define P0 where "P0 = (\<lambda>i. collideWith (aabb a i) (aabbMe b))"
  define LA0 where "LA0 = filter P0 [0 ..< asize]"
  define boxA where "boxA = fold (\<lambda>i acc. aabb_merge acc (aabb a i)) LA0 init_box"
  define Q where "Q = (\<lambda>j. collideWith (aabb b j) boxA)"
  define LB where "LB = (if LA0 \<noteq> [] then filter Q [0 ..< bsize] else [])"
  define boxB where "boxB = (if LA0 \<noteq> [] then fold (\<lambda>j acc. aabb_merge acc (aabb b j)) LB invalid_box
                             else aabbMe b)"
  define P1 where "P1 = (\<lambda>i. collideWith (aabb a i) boxB)"
  define LA1 where "LA1 = (if LB \<noteq> [] then filter P1 LA0 else LA0)"
  define h where "h = hit cc t0 a b"
  define all where "all = List.product [0 ..< asize] [0 ..< bsize]"
  have refine: "refine_lists init_box invalid_box a b = (LA1, LB)"
    unfolding refine_lists_def Let_def scan_eq
    by (simp add: LA1_def LB_def LA0_def P0_def P1_def Q_def boxA_def boxB_def asize_def bsize_def)
  have best: "best_CPURefactored cc t0 init_box invalid_box a b
                = fold (\<lambda>c r. keep_best r c) (List.map_filter h (List.product LA1 LB)) None"
    unfolding best_CPURefactored_def refine h_def
    by (simp add: dispatch_loops_hits [OF pure])
  have F1: "P0 i" if "h (i, j) = Some c" "j < bsize" for i j c
  proof -
    have "collideWith (aabb a i) (aabb b j)" using that(1) unfolding h_def by (rule hit_collide)
    moreover have "encloses (aabbMe b) (aabb b j)" using encl_b that(2) unfolding bsize_def by simp
    ultimately show ?thesis unfolding P0_def by (rule collideWith_encloses)
  qed
  have F2: "Q j" if "h (i, j) = Some c" "i \<in> set LA0" for i j c
  proof -
    have "collideWith (aabb a i) (aabb b j)" using that(1) unfolding h_def by (rule hit_collide)
    then have "collideWith (aabb b j) (aabb a i)" by (rule collideWith_sym)
    moreover have "encloses boxA (aabb a i)"
      unfolding boxA_def using that(2) by (rule fold_merge_encloses)
    ultimately show ?thesis unfolding Q_def by (rule collideWith_encloses)
  qed
  have F3: "P1 i" if "h (i, j) = Some c" "j \<in> set LB" "LA0 \<noteq> []" for i j c
  proof -
    have "collideWith (aabb a i) (aabb b j)" using that(1) unfolding h_def by (rule hit_collide)
    moreover have "encloses boxB (aabb b j)"
      unfolding boxB_def using that(2,3) by (simp add: fold_merge_encloses)
    ultimately show ?thesis unfolding P1_def by (rule collideWith_encloses)
  qed
  have "List.map_filter h (List.product LA1 LB) = List.map_filter h all"
  proof (cases "LA0 = []")
    case True
    have "\<forall>p \<in> set all. h p = None"
    proof
      fix p assume p: "p \<in> set all"
      show "h p = None"
      proof (rule ccontr)
        assume "h p \<noteq> None"
        then obtain c where c: "h (fst p, snd p) = Some c" by auto
        from p have r: "fst p < asize" "snd p < bsize" by (auto simp: all_def)
        from F1 [OF c r(2)] r(1) have "fst p \<in> set LA0" by (simp add: LA0_def)
        with True show False by simp
      qed
    qed
    then have "List.map_filter h all = []" by (rule map_filter_empty)
    moreover have "List.product LA1 LB = []" using True by (simp add: LA1_def LB_def)
    ultimately show ?thesis by simp
  next
    case A: False
    show ?thesis
    proof (cases "LB = []")
      case True
      have "\<forall>p \<in> set all. h p = None"
      proof
        fix p assume p: "p \<in> set all"
        show "h p = None"
        proof (rule ccontr)
          assume "h p \<noteq> None"
          then obtain c where c: "h (fst p, snd p) = Some c" by auto
          from p have r: "fst p < asize" "snd p < bsize" by (auto simp: all_def)
          from F1 [OF c r(2)] r(1) have "fst p \<in> set LA0" by (simp add: LA0_def)
          from F2 [OF c this] r(2) have "snd p \<in> set LB" using A by (simp add: LB_def)
          with True show False by simp
        qed
      qed
      then have "List.map_filter h all = []" by (rule map_filter_empty)
      moreover have "List.product LA1 LB = []" using True by (simp add: product_Nil_right)
      ultimately show ?thesis by simp
    next
      case B: False
      have LA1: "LA1 = filter (\<lambda>i. P0 i \<and> P1 i) [0 ..< asize]"
        using B by (simp add: LA1_def LA0_def conj_commute)
      have LB: "LB = filter Q [0 ..< bsize]" using A by (simp add: LB_def)
      have "List.product LA1 LB
              = filter (\<lambda>ij. (P0 (fst ij) \<and> P1 (fst ij)) \<and> Q (snd ij)) all"
        unfolding LA1 LB all_def by (rule product_filter)
      moreover have "\<forall>p \<in> set all.
          \<not> ((P0 (fst p) \<and> P1 (fst p)) \<and> Q (snd p)) \<longrightarrow> h p = None"
      proof (intro ballI impI)
        fix p assume p: "p \<in> set all"
          and n: "\<not> ((P0 (fst p) \<and> P1 (fst p)) \<and> Q (snd p))"
        show "h p = None"
        proof (rule ccontr)
          assume "h p \<noteq> None"
          then obtain c where c: "h (fst p, snd p) = Some c" by auto
          from p have r: "fst p < asize" "snd p < bsize" by (auto simp: all_def)
          have p0: "P0 (fst p)" by (rule F1 [OF c r(2)])
          with r(1) have "fst p \<in> set LA0" by (simp add: LA0_def)
          from F2 [OF c this] have q: "Q (snd p)" .
          with r(2) have "snd p \<in> set LB" by (simp add: LB)
          from F3 [OF c this A] have "P1 (fst p)" .
          with p0 q n show False by simp
        qed
      qed
      ultimately show ?thesis by (simp add: map_filter_filter)
    qed
  qed
  with best show ?thesis unfolding h_def all_def asize_def bsize_def by simp
qed

lemma map_filter_map_swap:
  "List.map_filter h (map prod.swap ps) = List.map_filter (\<lambda>p. h (prod.swap p)) ps"
  by (induction ps) (simp_all split: option.splits)

lemma loops_CPU_hits:
  fixes a b :: "('f::linorder, 'c) ColliderTree"
  assumes pure: "pure_checker cc"
    and encl_a: "\<forall>i < (if tree_isKinematic b then dynCollider a else numCollider a).
                   encloses (aabbMe a) (aabb a i)"
    and encl_b: "\<forall>j < (if tree_isKinematic a then dynCollider b else numCollider b).
                   encloses (aabbMe b) (aabb b j)"
  shows "loops_CPU cc t0 a b
           = fold (\<lambda>c r. keep_best r c)
               (List.map_filter (hit cc t0 a b)
                  (if (if tree_isKinematic b then dynCollider a else numCollider a)
                        > (if tree_isKinematic a then dynCollider b else numCollider b)
                   then List.product
                          [0 ..< (if tree_isKinematic b then dynCollider a else numCollider a)]
                          [0 ..< (if tree_isKinematic a then dynCollider b else numCollider b)]
                   else map prod.swap (List.product
                          [0 ..< (if tree_isKinematic a then dynCollider b else numCollider b)]
                          [0 ..< (if tree_isKinematic b then dynCollider a else numCollider a)])))
               None"
proof -
  define asize where "asize = (if tree_isKinematic b then dynCollider a else numCollider a)"
  define bsize where "bsize = (if tree_isKinematic a then dynCollider b else numCollider b)"
  define Pb where "Pb = (\<lambda>i. collideWith (aabb a i) (aabbMe b))"
  define Qa where "Qa = (\<lambda>j. collideWith (aabb b j) (aabbMe a))"
  define h where "h = hit cc t0 a b"
  define cp where "cp = (\<lambda>ij. check_pair cc a b (fst ij) (snd ij))"
  have F: "Pb i \<and> Qa j" if "h (i, j) = Some c" "i < asize" "j < bsize" for i j c
  proof -
    have c: "collideWith (aabb a i) (aabb b j)" using that(1) unfolding h_def by (rule hit_collide)
    have "encloses (aabbMe b) (aabb b j)" using encl_b that(3) unfolding bsize_def by simp
    with c have 1: "Pb i" unfolding Pb_def by (rule collideWith_encloses)
    have "encloses (aabbMe a) (aabb a i)" using encl_a that(2) unfolding asize_def by simp
    with collideWith_sym [OF c] have "Qa j" unfolding Qa_def by (rule collideWith_encloses)
    with 1 show ?thesis ..
  qed
  show ?thesis
  proof (cases "asize > bsize")
    case True
    have "loops_CPU cc t0 a b
            = fst (fold (\<lambda>i st. if \<not> Pb i then st
                                 else fold (\<lambda>j. check_pair cc a b i j) (filter Qa [0 ..< bsize]) st)
                     [0 ..< asize] (None, t0))"
      using True unfolding loops_CPU_def Let_def asize_def bsize_def Pb_def Qa_def by simp
    also have "\<dots> = fst (fold cp (List.product (filter Pb [0 ..< asize]) (filter Qa [0 ..< bsize]))
                          (None, t0))"
      unfolding cp_def by (simp only: fold_guard_filter fold_product)
    also have "\<dots> = fold (\<lambda>c r. keep_best r c)
                       (List.map_filter h
                          (List.product (filter Pb [0 ..< asize]) (filter Qa [0 ..< bsize]))) None"
      unfolding cp_def h_def using fold_check_pairs [OF pure, of a b _ "(None, t0)" t0] by simp
    also have "List.map_filter h (List.product (filter Pb [0 ..< asize]) (filter Qa [0 ..< bsize]))
                 = List.map_filter h (List.product [0 ..< asize] [0 ..< bsize])"
      unfolding product_filter
    proof (rule map_filter_filter, intro ballI impI)
      fix p assume p: "p \<in> set (List.product [0 ..< asize] [0 ..< bsize])"
        and n: "\<not> (Pb (fst p) \<and> Qa (snd p))"
      show "h p = None"
      proof (rule ccontr)
        assume "h p \<noteq> None"
        then obtain c where c: "h (fst p, snd p) = Some c" by auto
        from p have "fst p < asize" "snd p < bsize" by auto
        from F [OF c this] n show False by simp
      qed
    qed
    finally show ?thesis using True unfolding h_def asize_def bsize_def by simp
  next
    case False
    have "loops_CPU cc t0 a b
            = fst (fold (\<lambda>j st. if \<not> Qa j then st
                                 else fold (\<lambda>i. check_pair cc a b i j) (filter Pb [0 ..< asize]) st)
                     [0 ..< bsize] (None, t0))"
      using False unfolding loops_CPU_def Let_def asize_def bsize_def Pb_def Qa_def by simp
    also have "\<dots> = fst (fold cp (map prod.swap
                         (List.product (filter Qa [0 ..< bsize]) (filter Pb [0 ..< asize])))
                          (None, t0))"
      unfolding cp_def by (simp only: fold_guard_filter fold_product_swapped)
    also have "\<dots> = fold (\<lambda>c r. keep_best r c)
                       (List.map_filter h (map prod.swap
                          (List.product (filter Qa [0 ..< bsize]) (filter Pb [0 ..< asize])))) None"
      unfolding cp_def h_def using fold_check_pairs [OF pure, of a b _ "(None, t0)" t0] by simp
    also have "List.map_filter h (map prod.swap
                  (List.product (filter Qa [0 ..< bsize]) (filter Pb [0 ..< asize])))
                 = List.map_filter h (map prod.swap (List.product [0 ..< bsize] [0 ..< asize]))"
      unfolding product_filter map_filter_map_swap
    proof (rule map_filter_filter, intro ballI impI)
      fix p assume p: "p \<in> set (List.product [0 ..< bsize] [0 ..< asize])"
        and n: "\<not> (Qa (fst p) \<and> Pb (snd p))"
      show "h (prod.swap p) = None"
      proof (rule ccontr)
        assume "h (prod.swap p) \<noteq> None"
        then obtain c where c: "h (snd p, fst p) = Some c" by (auto simp: prod.swap_def)
        from p have "snd p < asize" "fst p < bsize" by auto
        from F [OF c this] n show False by simp
      qed
    qed
    finally show ?thesis using False unfolding h_def asize_def bsize_def by simp
  qed
qed

lemma set_hits_swapped:
  "set (List.map_filter h (map prod.swap (List.product js is)))
     = set (List.map_filter h (List.product is js))"
  by (auto simp: set_map_filter)

lemma body_CPURefactored_best:
  "body_CPURefactored cc sw M t0 init_box invalid_box (a, b) s
     = (case best_CPURefactored cc t0 init_box invalid_box a b of
          Some result \<Rightarrow> snd (addResult sw M s result)
        | None \<Rightarrow> s)"
  by (simp add: body_CPURefactored_def best_CPURefactored_def dispatch_def split: prod.splits)

lemma least_depth_unique:
  fixes r1 r2 :: "('f::linorder, 'c) CollisionResult"
  assumes "r1 \<in> S" "\<forall>x \<in> S. depth r1 \<le> depth x" "r2 \<in> S" "\<forall>x \<in> S. depth r2 \<le> depth x"
  shows "depth r1 = depth r2"
  using assms by (meson order_antisym)

text \<open>
  Claim C7, as the code has it. Let the geometry checker be pure and let each tree's
  \<^verbatim>\<open>aabbMe\<close> enclose the boxes of its scanned colliders. Then the single-pass algorithm
  (\<^verbatim>\<open>e_CPU\<close>) and the iterative-tightening one (\<^verbatim>\<open>e_CPURefactored\<close>) find a contact
  for a coarse pair exactly when some primitive pair with colliding boxes overlaps; the
  contact each finds is one of those contacts and none is deeper; so the two contacts
  have the same depth. They are the same contact, and the two lambdas leave the sink in
  the same state, when A's scanned range is longer than B's (both then visit the pairs
  in the same order) or when no two overlapping pairs have contacts of equal depth.
\<close>

theorem best_of_pair_agree:
  fixes a b :: "('f::{linorder,uminus}, 'c) ColliderTree"
  assumes pure: "pure_checker cc"
    and encl_a: "\<forall>i < scan_size a b. encloses (aabbMe a) (aabb a i)"
    and encl_b: "\<forall>j < scan_size b a. encloses (aabbMe b) (aabb b j)"
  shows "(best_CPURefactored cc t0 init_box invalid_box a b = None
            \<longleftrightarrow> overlapping cc t0 a b = [])
     \<and> (loops_CPU cc t0 a b = None \<longleftrightarrow> overlapping cc t0 a b = [])
     \<and> (\<forall>r. best_CPURefactored cc t0 init_box invalid_box a b = Some r \<longrightarrow>
            r \<in> set (overlapping cc t0 a b)
            \<and> (\<forall>x \<in> set (overlapping cc t0 a b). depth r \<le> depth x))
     \<and> (\<forall>r. loops_CPU cc t0 a b = Some r \<longrightarrow>
            r \<in> set (overlapping cc t0 a b)
            \<and> (\<forall>x \<in> set (overlapping cc t0 a b). depth r \<le> depth x))
     \<and> map_option depth (loops_CPU cc t0 a b)
         = map_option depth (best_CPURefactored cc t0 init_box invalid_box a b)
     \<and> (scan_size a b > scan_size b a \<or> inj_on depth (set (overlapping cc t0 a b)) \<longrightarrow>
          loops_CPU cc t0 a b = best_CPURefactored cc t0 init_box invalid_box a b
          \<and> func_CPU cc sw M t0 (a, b) s
              = func_CPURefactored cc sw M t0 init_box invalid_box (a, b) s)"
proof -
  let ?H = "overlapping cc t0 a b"
  let ?R = "best_CPURefactored cc t0 init_box invalid_box a b"
  let ?C = "loops_CPU cc t0 a b"
  let ?Hs = "List.map_filter (hit cc t0 a b)
               (map prod.swap (List.product [0 ..< scan_size b a] [0 ..< scan_size a b]))"
  have R: "?R = fold (\<lambda>c r. keep_best r c) ?H None"
    unfolding overlapping_def scan_size_def
    by (rule best_CPURefactored_hits [OF pure encl_b [unfolded scan_size_def]])
  have C: "?C = fold (\<lambda>c r. keep_best r c)
                  (if scan_size a b > scan_size b a then ?H else ?Hs) None"
    using loops_CPU_hits [OF pure encl_a [unfolded scan_size_def] encl_b [unfolded scan_size_def],
        of t0]
    unfolding overlapping_def scan_size_def by (simp add: if_distrib [of "List.map_filter _"])
  have sets: "set ?Hs = set ?H"
    unfolding overlapping_def by (rule set_hits_swapped)
  have Rn: "?R = None \<longleftrightarrow> ?H = []"
    unfolding R by (rule fold_keep_best_None)
  have Cn: "?C = None \<longleftrightarrow> ?H = []"
  proof -
    have "?C = None \<longleftrightarrow> (if scan_size a b > scan_size b a then ?H else ?Hs) = []"
      unfolding C by (rule fold_keep_best_None)
    also have "\<dots> \<longleftrightarrow> ?H = []"
      using sets by (metis set_empty)
    finally show ?thesis .
  qed
  have Rmin: "r \<in> set ?H \<and> (\<forall>x \<in> set ?H. depth r \<le> depth x)" if "?R = Some r" for r
    using that unfolding R by (rule fold_keep_best_min)
  have Cmin: "r \<in> set ?H \<and> (\<forall>x \<in> set ?H. depth r \<le> depth x)" if "?C = Some r" for r
  proof -
    have "r \<in> set (if scan_size a b > scan_size b a then ?H else ?Hs)
          \<and> (\<forall>x \<in> set (if scan_size a b > scan_size b a then ?H else ?Hs). depth r \<le> depth x)"
      using that unfolding C by (rule fold_keep_best_min)
    then show ?thesis using sets by (simp split: if_splits)
  qed
  have depths: "map_option depth ?C = map_option depth ?R"
  proof (cases ?R)
    case None
    then show ?thesis using Rn Cn by simp
  next
    case (Some r)
    then have "?H \<noteq> []" using Rn by simp
    then obtain c where c: "?C = Some c" using Cn by (cases ?C) auto
    have "depth c = depth r"
      using Rmin [OF Some] Cmin [OF c] by (meson order_antisym)
    then show ?thesis using Some c by simp
  qed
  have same: "?C = ?R" if "scan_size a b > scan_size b a \<or> inj_on depth (set ?H)"
  proof (cases "scan_size a b > scan_size b a")
    case True
    then show ?thesis unfolding R C by simp
  next
    case False
    with that have inj: "inj_on depth (set ?H)" by simp
    show ?thesis
    proof (cases ?R)
      case None
      then show ?thesis using Rn Cn by simp
    next
      case (Some r)
      then have "?H \<noteq> []" using Rn by simp
      then obtain c where c: "?C = Some c" using Cn by (cases ?C) auto
      have "depth c = depth r"
        using Rmin [OF Some] Cmin [OF c] by (meson order_antisym)
      then have "c = r"
        using inj Rmin [OF Some] Cmin [OF c] by (meson inj_onD)
      then show ?thesis using Some c by simp
    qed
  qed
  have funcs: "func_CPU cc sw M t0 (a, b) s
              = func_CPURefactored cc sw M t0 init_box invalid_box (a, b) s"
    if "?C = ?R"
    using that
    by (simp add: func_CPU_def func_CPURefactored_def body_CPU_def body_CPURefactored_best)
  show ?thesis using Rn Cn Rmin Cmin depths same funcs by blast
qed

lemma sample_check [simp]:
  "sample_checkCollide h 0 11 t
     = (True, \<lparr>posA = Vec3 (1 / 4) (1 / 4) (- 1 / 2), posB = Vec3 (1 / 4) (1 / 4) (1 / 4),
               normOnB = Vec3 0 0 1, colliderA = 0, colliderB = 11, depth = - 3 / 4\<rparr>)"
  "0 \<le> h \<Longrightarrow> h < 5 / 4 \<Longrightarrow>
   sample_checkCollide h (Suc 0) 10 t
     = (True, \<lparr>posA = Vec3 (41 / 4) (1 / 4) (h - 1), posB = Vec3 (41 / 4) (1 / 4) (1 / 4),
               normOnB = Vec3 0 0 1, colliderA = 1, colliderB = 10, depth = h - 5 / 4\<rparr>)"
  by (cases t; simp add: sample_checkCollide_def checkCollide_PerTriangleShape_def
      sample_checkSphereTriangle_def sample_above_def sample_valid_def sample_triangle_def
      sample_col_def sample_spheres_def sample_corners_def vcross_def vsub_def Let_def)+

lemma sample_pure: "pure_checker (sample_checkCollide h)"
  by (simp add: pure_checker_def sample_checkCollide_def checkCollide_PerTriangleShape_def
      sample_checkSphereTriangle_def Let_def split: prod.splits)

lemma sample_collide [simp]:
  "collideWith (sample_box l h) (sample_box l' h') \<longleftrightarrow> l \<le> h' \<and> l' \<le> h"
  by (auto simp: collideWith_def sample_box_def)

lemma sample_merge_box [simp]:
  "l \<le> 12 \<Longrightarrow> - 1 \<le> h \<Longrightarrow> aabb_merge (sample_box 12 (- 1)) (sample_box l h) = sample_box l h"
  "aabb_merge (sample_box l h) (sample_box l' h') = sample_box (min l l') (max h h')"
  by (simp_all add: aabb_merge_def sample_box_def)

lemma sample_loops_CPU:
  "0 \<le> h \<Longrightarrow> h < 5 / 4 \<Longrightarrow>
   loops_CPU (sample_checkCollide h) (sample_contact 0) sample_treeA sample_treeB
     = Some (if h < 1 / 2
             then \<lparr>posA = Vec3 (41 / 4) (1 / 4) (h - 1), posB = Vec3 (41 / 4) (1 / 4) (1 / 4),
                   normOnB = Vec3 0 0 1, colliderA = 1, colliderB = 10, depth = h - 5 / 4\<rparr>
             else if h = 1 / 2
             then \<lparr>posA = Vec3 (41 / 4) (1 / 4) (- 1 / 2), posB = Vec3 (41 / 4) (1 / 4) (1 / 4),
                   normOnB = Vec3 0 0 1, colliderA = 1, colliderB = 10, depth = - 3 / 4\<rparr>
             else \<lparr>posA = Vec3 (1 / 4) (1 / 4) (- 1 / 2), posB = Vec3 (1 / 4) (1 / 4) (1 / 4),
                   normOnB = Vec3 0 0 1, colliderA = 0, colliderB = 11, depth = - 3 / 4\<rparr>)"
  by (simp add: loops_CPU_def check_pair_def sample_treeA_def sample_treeB_def Let_def upt_rec)

lemma sample_best_CPURefactored:
  "0 \<le> h \<Longrightarrow> h < 5 / 4 \<Longrightarrow>
   best_CPURefactored (sample_checkCollide h) (sample_contact 0) (sample_box 12 (- 1))
      (sample_box 12 (- 1)) sample_treeA sample_treeB
     = Some (if h < 1 / 2
             then \<lparr>posA = Vec3 (41 / 4) (1 / 4) (h - 1), posB = Vec3 (41 / 4) (1 / 4) (1 / 4),
                   normOnB = Vec3 0 0 1, colliderA = 1, colliderB = 10, depth = h - 5 / 4\<rparr>
             else \<lparr>posA = Vec3 (1 / 4) (1 / 4) (- 1 / 2), posB = Vec3 (1 / 4) (1 / 4) (1 / 4),
                   normOnB = Vec3 0 0 1, colliderA = 0, colliderB = 11, depth = - 3 / 4\<rparr>)"
  by (simp add: best_CPURefactored_def refine_lists_def scan_def dispatch_loops_def check_pair_def
      sample_treeA_def sample_treeB_def Let_def upt_rec)

lemma sample_overlapping:
  "0 \<le> h \<Longrightarrow> h < 5 / 4 \<Longrightarrow>
   overlapping (sample_checkCollide h) (sample_contact 0) sample_treeA sample_treeB
     = [\<lparr>posA = Vec3 (1 / 4) (1 / 4) (- 1 / 2), posB = Vec3 (1 / 4) (1 / 4) (1 / 4),
          normOnB = Vec3 0 0 1, colliderA = 0, colliderB = 11, depth = - 3 / 4\<rparr>,
        \<lparr>posA = Vec3 (41 / 4) (1 / 4) (h - 1), posB = Vec3 (41 / 4) (1 / 4) (1 / 4),
          normOnB = Vec3 0 0 1, colliderA = 1, colliderB = 10, depth = h - 5 / 4\<rparr>]"
  by (simp add: overlapping_def scan_size_def hit_def sample_treeA_def sample_treeB_def upt_rec)

theorem best_of_pair_agree_witness:
  "encloses (aabbMe sample_treeA) (aabb sample_treeA 0)
   \<and> encloses (aabbMe sample_treeA) (aabb sample_treeA 1)
   \<and> encloses (aabbMe sample_treeB) (aabb sample_treeB 0)
   \<and> encloses (aabbMe sample_treeB) (aabb sample_treeB 1)
   \<and> map depth (overlapping (sample_checkCollide (1 / 4)) (sample_contact 0)
                   sample_treeA sample_treeB) = [- 3 / 4, - 1]
   \<and> loops_CPU (sample_checkCollide (1 / 4)) (sample_contact 0) sample_treeA sample_treeB
       = Some \<lparr>posA = Vec3 (41 / 4) (1 / 4) (- 3 / 4), posB = Vec3 (41 / 4) (1 / 4) (1 / 4),
               normOnB = Vec3 0 0 1, colliderA = 1, colliderB = 10, depth = - 1\<rparr>
   \<and> func_CPU (sample_checkCollide (1 / 4)) False 256 (sample_contact 0)
         (sample_treeA, sample_treeB) (sink_init (\<lambda>i. sample_contact 0))
       = func_CPURefactored (sample_checkCollide (1 / 4)) False 256 (sample_contact 0)
           (sample_box 12 (- 1)) (sample_box 12 (- 1)) (sample_treeA, sample_treeB)
           (sink_init (\<lambda>i. sample_contact 0))"
proof -
  have e: "encloses (aabbMe sample_treeA) (aabb sample_treeA 0)"
      "encloses (aabbMe sample_treeA) (aabb sample_treeA 1)"
      "encloses (aabbMe sample_treeB) (aabb sample_treeB 0)"
      "encloses (aabbMe sample_treeB) (aabb sample_treeB 1)"
    by (simp_all add: encloses_def sample_treeA_def sample_treeB_def sample_box_def)
  have sz: "scan_size sample_treeA sample_treeB = 2" "scan_size sample_treeB sample_treeA = 2"
    by (simp_all add: scan_size_def sample_treeA_def sample_treeB_def)
  have ea: "\<forall>i < scan_size sample_treeA sample_treeB.
              encloses (aabbMe sample_treeA) (aabb sample_treeA i)"
    using e(1,2) unfolding sz by (auto simp: less_Suc_eq numeral_2_eq_2)
  have eb: "\<forall>j < scan_size sample_treeB sample_treeA.
              encloses (aabbMe sample_treeB) (aabb sample_treeB j)"
    using e(3,4) unfolding sz by (auto simp: less_Suc_eq numeral_2_eq_2)
  have d: "map depth (overlapping (sample_checkCollide (1 / 4)) (sample_contact 0)
                   sample_treeA sample_treeB) = [- 3 / 4, - 1]"
    by (simp add: sample_overlapping)
  have inj: "inj_on depth (set (overlapping (sample_checkCollide (1 / 4)) (sample_contact 0)
                                  sample_treeA sample_treeB))"
    by (simp add: sample_overlapping)
  note t = best_of_pair_agree [OF sample_pure [of "1 / 4"] ea eb, of "sample_contact 0" "sample_box 12 (- 1)"
      "sample_box 12 (- 1)" False 256 "sink_init (\<lambda>i. sample_contact 0)"]
  from t inj have
    "loops_CPU (sample_checkCollide (1 / 4)) (sample_contact 0) sample_treeA sample_treeB
       = best_CPURefactored (sample_checkCollide (1 / 4)) (sample_contact 0) (sample_box 12 (- 1))
           (sample_box 12 (- 1)) sample_treeA sample_treeB"
    "func_CPU (sample_checkCollide (1 / 4)) False 256 (sample_contact 0)
         (sample_treeA, sample_treeB) (sink_init (\<lambda>i. sample_contact 0))
       = func_CPURefactored (sample_checkCollide (1 / 4)) False 256 (sample_contact 0)
           (sample_box 12 (- 1)) (sample_box 12 (- 1)) (sample_treeA, sample_treeB)
           (sink_init (\<lambda>i. sample_contact 0))"
    by blast+
  with e d show ?thesis by (simp add: sample_best_CPURefactored)
qed

text \<open>
  The claim C7 as stated fails when two overlapping pairs tie for the greatest
  penetration: \<^verbatim>\<open>e_CPURefactored\<close> visits the pairs with A's collider in the outer
  loop, \<^verbatim>\<open>e_CPU\<close> (when A's range is not longer than B's) with B's, and each keeps the
  first deepest contact it meets. On the sample trees with both spheres at the height
  \<open>0.5\<close>, sphere 0 enters triangle 11 and sphere 1 enters triangle 10 by the same depth
  \<open>-0.75\<close>: \<^verbatim>\<open>e_CPU\<close> submits the contact of colliders 1 and 10, \<^verbatim>\<open>e_CPURefactored\<close>
  that of colliders 0 and 11.
\<close>

theorem best_of_pair_differ_counterexample:
  "loops_CPU (sample_checkCollide (1 / 2)) (sample_contact 0) sample_treeA sample_treeB
     = Some \<lparr>posA = Vec3 (41 / 4) (1 / 4) (- 1 / 2), posB = Vec3 (41 / 4) (1 / 4) (1 / 4),
             normOnB = Vec3 0 0 1, colliderA = 1, colliderB = 10, depth = - 3 / 4\<rparr>
   \<and> best_CPURefactored (sample_checkCollide (1 / 2)) (sample_contact 0) (sample_box 12 (- 1))
        (sample_box 12 (- 1)) sample_treeA sample_treeB
     = Some \<lparr>posA = Vec3 (1 / 4) (1 / 4) (- 1 / 2), posB = Vec3 (1 / 4) (1 / 4) (1 / 4),
             normOnB = Vec3 0 0 1, colliderA = 0, colliderB = 11, depth = - 3 / 4\<rparr>
   \<and> results (func_CPU (sample_checkCollide (1 / 2)) False 256 (sample_contact 0)
                 (sample_treeA, sample_treeB) (sink_init (\<lambda>i. sample_contact 0))) 0
       \<noteq> results (func_CPURefactored (sample_checkCollide (1 / 2)) False 256 (sample_contact 0)
                 (sample_box 12 (- 1)) (sample_box 12 (- 1))
                 (sample_treeA, sample_treeB) (sink_init (\<lambda>i. sample_contact 0))) 0"
  by (simp add: sample_loops_CPU sample_best_CPURefactored func_CPU_def func_CPURefactored_def
      body_CPU_def body_CPURefactored_best sink_init_def addResult_def addResult_plain_def
      Let_def)

section \<open>Properties of the pair dispatcher\<close>

lemma addResults_counter:
  "numResults (snd (addResults sw M s xs)) = numResults s + of_nat (length xs)"
proof (induction xs arbitrary: s)
  case Nil
  show ?case by simp
next
  case (Cons x xs)
  have "numResults (snd (addResults sw M (snd (addResult sw M s x)) xs))
          = numResults (snd (addResult sw M s x)) + of_nat (length xs)"
    by (rule Cons.IH)
  then show ?case
    by (simp only: addResults_Cons_snd addResult_counter) simp
qed

lemma nat_less_2p31: "M < 2 ^ 31 \<Longrightarrow> nat M < 2 ^ 31"
  by (simp add: nat_less_iff)

lemma fold_guarded_add:
  assumes "numResults s = of_nat k" "k \<le> nat M" "M < 2 ^ 31"
  shows "fold (\<lambda>p s. if sint (numResults s) \<ge> M then s
                      else (case best p of Some c \<Rightarrow> snd (addResult sw M s c) | None \<Rightarrow> s))
           pairs s
         = snd (addResults sw M s (take (nat M - k) (List.map_filter best pairs)))"
  using assms
proof (induction pairs arbitrary: s k)
  case Nil
  show ?case by simp
next
  case (Cons p pairs)
  have k: "k < 2 ^ 31" using Cons.prems(2) nat_less_2p31 [OF Cons.prems(3)] by simp
  have p: "sint (numResults s) = int k"
    using Cons.prems(1) sint_of_nat_32 [OF k] by simp
  show ?case
  proof (cases "int k \<ge> M")
    case True
    then have z: "nat M - k = 0" by simp
    have "fold (\<lambda>p s. if sint (numResults s) \<ge> M then s
                      else (case best p of Some c \<Rightarrow> snd (addResult sw M s c) | None \<Rightarrow> s))
           pairs s = snd (addResults sw M s (take (nat M - k) (List.map_filter best pairs)))"
      by (rule Cons.IH [OF Cons.prems])
    then show ?thesis using True p z by simp
  next
    case False
    show ?thesis
    proof (cases "best p")
      case None
      have "fold (\<lambda>p s. if sint (numResults s) \<ge> M then s
                      else (case best p of Some c \<Rightarrow> snd (addResult sw M s c) | None \<Rightarrow> s))
           pairs s = snd (addResults sw M s (take (nat M - k) (List.map_filter best pairs)))"
        by (rule Cons.IH [OF Cons.prems])
      then show ?thesis using False p None by simp
    next
      case (Some c)
      let ?s1 = "snd (addResult sw M s c)"
      have c1: "numResults ?s1 = of_nat (Suc k)"
        using addResult_counter [of sw M s c] Cons.prems(1) by simp
      have k1: "Suc k \<le> nat M" using False by simp
      have "fold (\<lambda>p s. if sint (numResults s) \<ge> M then s
                      else (case best p of Some c \<Rightarrow> snd (addResult sw M s c) | None \<Rightarrow> s))
           pairs ?s1 = snd (addResults sw M ?s1 (take (nat M - Suc k) (List.map_filter best pairs)))"
        by (rule Cons.IH [OF c1 k1 Cons.prems(3)])
      moreover have "take (nat M - k) (c # List.map_filter best pairs)
          = c # take (nat M - Suc k) (List.map_filter best pairs)"
      proof -
        have "nat M - k = Suc (nat M - Suc k)" using k1 by simp
        then show ?thesis by (simp only: take_Suc_Cons)
      qed
      ultimately show ?thesis
        using False p Some by (simp add: addResults_Cons_snd del: addResults.simps)
    qed
  qed
qed

lemma func_CPURefactored_guarded:
  "func_CPURefactored cc sw M t0 init_box invalid_box
     = (\<lambda>p s. if sint (numResults s) \<ge> M then s
              else (case best_CPURefactored cc t0 init_box invalid_box (fst p) (snd p) of
                      Some c \<Rightarrow> snd (addResult sw M s c) | None \<Rightarrow> s))"
  by (intro ext)
     (simp add: func_CPURefactored_def body_CPURefactored_def best_CPURefactored_def dispatch_def
        split: prod.splits)

lemma func_CPU_guarded:
  "func_CPU cc sw M t0
     = (\<lambda>p s. if sint (numResults s) \<ge> M then s
              else (case loops_CPU cc t0 (fst p) (snd p) of
                      Some c \<Rightarrow> snd (addResult sw M s c) | None \<Rightarrow> s))"
  by (intro ext) (simp add: func_CPU_def body_CPU_def)

lemma sequential_call:
  assumes seq: "length pairs < hardware_concurrency" and M: "0 \<le> M" "M < 2 ^ 31"
    and func: "func = (\<lambda>p s. if sint (numResults s) \<ge> M then s
              else (case best p of Some c \<Rightarrow> snd (addResult sw M s c) | None \<Rightarrow> s))"
  shows "CollisionCheckAlgorithm_call M func body hardware_concurrency schedule pairs r
           = Some (int (min (length (List.map_filter best pairs)) (nat M)),
                   snd (addResults sw M (sink_init r) (take (nat M) (List.map_filter best pairs))))"
proof -
  let ?cs = "take (nat M) (List.map_filter best pairs)"
  let ?s = "snd (addResults sw M (sink_init r) ?cs)"
  have init: "numResults (sink_init r) = of_nat 0" by (simp add: sink_init_def)
  have run: "fold func pairs (sink_init r) = ?s"
    unfolding func
    using fold_guarded_add [OF init _ M(2), where best = best and sw = sw and pairs = pairs]
    by simp
  have len: "length ?cs = min (length (List.map_filter best pairs)) (nat M)"
    by (simp add: min.commute)
  have "length ?cs < 2 ^ 31"
    using nat_less_2p31 [OF M(2)] by simp
  then have "sint (numResults ?s) = int (length ?cs)"
    using addResults_counter [of sw M "sink_init r" ?cs] init sint_of_nat_32 by simp
  then have cnt: "sint (numResults ?s) = int (min (length (List.map_filter best pairs)) (nat M))"
    using len by simp
  show ?thesis
  proof (cases "pairs = []")
    case True
    then show ?thesis by (simp add: CollisionCheckAlgorithm_call_def)
  next
    case False
    then show ?thesis
      using seq run cnt by (simp add: CollisionCheckAlgorithm_call_def Let_def)
  qed
qed

lemma addResults_snoc:
  "snd (addResults sw M s (xs @ [c])) = snd (addResult sw M (snd (addResults sw M s xs)) c)"
proof (induction xs arbitrary: s)
  case Nil
  show ?case by (simp split: prod.splits)
next
  case (Cons x xs)
  show ?case by (simp only: append_Cons addResults_Cons_snd Cons.IH)
qed

lemma fold_par_step_None: "fold (par_step M body pairs) schedule None = None"
  by (induction schedule) (simp_all add: par_step_def)
lemma finished_finite: "finite (finished phases)"
  by (simp add: finished_def)

lemma finished_card: "card (finished phases) \<le> length phases"
proof -
  have "finished phases \<subseteq> {..< length phases}" by (auto simp: finished_def)
  then have "card (finished phases) \<le> card {..< length phases}" by (intro card_mono) auto
  then show ?thesis by simp
qed

lemma finished_update:
  assumes "k < length phases" "phases ! k \<noteq> Finished"
  shows "card (finished (phases[k := Finished])) = Suc (card (finished phases))"
proof -
  have "finished (phases[k := Finished]) = insert k (finished phases)"
    using assms by (auto simp: finished_def nth_list_update)
  moreover have "k \<notin> finished phases" using assms by (simp add: finished_def)
  ultimately show ?thesis using finished_finite by simp
qed

lemma finished_enter:
  assumes "k < length phases" "phases ! k = Waiting"
  shows "finished (phases[k := Entered]) = finished phases"
  using assms by (auto simp: finished_def nth_list_update)

lemma parallel_run_submissions:
  assumes body: "\<And>p s. body p s = (case best p of Some c \<Rightarrow> snd (addResult sw M s c) | None \<Rightarrow> s)"
  shows "fold (par_step M body pairs) schedule (Some (phases, s)) = Some (phases1, s1) \<Longrightarrow>
         s = snd (addResults sw M s0 adds) \<Longrightarrow> length adds \<le> card (finished phases) \<Longrightarrow>
         length phases = length pairs \<Longrightarrow>
         set adds \<subseteq> {c. \<exists>p \<in> set pairs. best p = Some c} \<Longrightarrow>
         \<exists>adds1. s1 = snd (addResults sw M s0 adds1) \<and> length adds1 \<le> card (finished phases1)
                 \<and> length phases1 = length phases
                 \<and> set adds1 \<subseteq> {c. \<exists>p \<in> set pairs. best p = Some c}"
proof (induction schedule arbitrary: phases s adds)
  case Nil
  then show ?case by auto
next
  case (Cons k schedule)
  let ?st = "par_step M body pairs k (Some (phases, s))"
  from Cons.prems(1) have run: "fold (par_step M body pairs) schedule ?st = Some (phases1, s1)"
    by simp
  have "?st \<noteq> None"
  proof
    assume "?st = None"
    with run show False by (simp add: fold_par_step_None)
  qed
  then obtain phases2 s2 where st: "?st = Some (phases2, s2)" by auto
  have "\<exists>adds2. s2 = snd (addResults sw M s0 adds2) \<and> length adds2 \<le> card (finished phases2)
          \<and> length phases2 = length phases
          \<and> set adds2 \<subseteq> {c. \<exists>p \<in> set pairs. best p = Some c}"
  proof (cases "k < length pairs")
    case False
    with st show ?thesis by (simp add: par_step_def)
  next
    case k: True
    then have kl: "k < length phases" using Cons.prems(4) by simp
    show ?thesis
    proof (cases "phases ! k")
      case Waiting
      show ?thesis
      proof (cases "sint (numResults s) \<ge> M")
        case True
        with st k Waiting have e: "phases2 = phases[k := Finished]" "s2 = s"
          by (simp_all add: par_step_def)
        have "card (finished phases) \<le> card (finished phases2)"
          using finished_update [OF kl] Waiting e by simp
        with Cons.prems(2,3,5) e show ?thesis by auto
      next
        case False
        with st k Waiting have e: "phases2 = phases[k := Entered]" "s2 = s"
          by (simp_all add: par_step_def)
        have "card (finished phases) \<le> card (finished phases2)"
          using finished_enter [OF kl] Waiting e by simp
        with Cons.prems(2,3,5) e show ?thesis by auto
      qed
    next
      case Entered
      with st k have e: "phases2 = phases[k := Finished]" "s2 = body (pairs ! k) s"
        by (simp_all add: par_step_def)
      have c: "card (finished phases2) = Suc (card (finished phases))"
        using finished_update [OF kl] Entered e by simp
      show ?thesis
      proof (cases "best (pairs ! k)")
        case None
        then have "s2 = s" using e body by simp
        with Cons.prems(2,3,5) c e show ?thesis by auto
      next
        case (Some cn)
        then have "s2 = snd (addResults sw M s0 (adds @ [cn]))"
          using e body Cons.prems(2) by (simp add: addResults_snoc)
        moreover have "length (adds @ [cn]) \<le> card (finished phases2)"
          using Cons.prems(3) c by simp
        moreover have "length phases2 = length phases" using e by simp
        moreover have "set (adds @ [cn]) \<subseteq> {c. \<exists>p \<in> set pairs. best p = Some c}"
          using Cons.prems(5) Some k by auto
        ultimately show ?thesis by blast
      qed
    next
      case Finished
      with st k show ?thesis by (simp add: par_step_def)
    qed
  qed
  then obtain adds2 where a2: "s2 = snd (addResults sw M s0 adds2)"
      "length adds2 \<le> card (finished phases2)" "length phases2 = length phases"
      "set adds2 \<subseteq> {c. \<exists>p \<in> set pairs. best p = Some c}"
    by blast
  have "length phases2 = length pairs" using a2(3) Cons.prems(4) by simp
  from Cons.IH [OF run [unfolded st] a2(1,2) this a2(4)] a2(3) show ?case by auto
qed

lemma body_CPURefactored_guarded:
  "body_CPURefactored cc sw M t0 init_box invalid_box p s
     = (case best_CPURefactored cc t0 init_box invalid_box (fst p) (snd p) of
          Some c \<Rightarrow> snd (addResult sw M s c) | None \<Rightarrow> s)"
  by (simp add: body_CPURefactored_def best_CPURefactored_def dispatch_def split: prod.splits)

lemma set_map_filter_sub:
  "set (take n (List.map_filter h ps)) \<subseteq> {c. \<exists>p \<in> set ps. h p = Some c}"
  using set_take_subset [of n "List.map_filter h ps"] by (auto simp: set_map_filter)

lemma call_submissions:
  assumes M: "0 \<le> M" "M < 2 ^ 31" and len: "length pairs < 2 ^ 31"
    and func: "func = (\<lambda>p s. if sint (numResults s) \<ge> M then s
              else (case best p of Some c \<Rightarrow> snd (addResult sw M s c) | None \<Rightarrow> s))"
    and body: "\<And>p s. body p s = (case best p of Some c \<Rightarrow> snd (addResult sw M s c) | None \<Rightarrow> s)"
    and call: "CollisionCheckAlgorithm_call M func body hardware_concurrency schedule pairs r
                 = Some (n, s1)"
  shows "\<exists>adds. n = int (length adds) \<and> length adds \<le> length pairs
           \<and> set adds \<subseteq> {c. \<exists>p \<in> set pairs. best p = Some c}
           \<and> s1 = snd (addResults sw M (sink_init r) adds)
           \<and> (length pairs < hardware_concurrency \<longrightarrow> n \<le> M)"
proof (cases "length pairs < hardware_concurrency")
  case True
  let ?adds = "take (nat M) (List.map_filter best pairs)"
  have eq: "Some (n, s1) = Some (int (min (length (List.map_filter best pairs)) (nat M)),
                   snd (addResults sw M (sink_init r) ?adds))"
    using sequential_call [OF True M func, of body schedule r] call by simp
  have "length (List.map_filter best pairs) \<le> length pairs"
    by (simp add: map_filter_def)
  then have "length ?adds \<le> length pairs" by simp
  moreover have "n = int (length ?adds)" using eq by (simp add: min.commute)
  moreover have "n \<le> M" using eq M(1) by simp
  moreover have "s1 = snd (addResults sw M (sink_init r) ?adds)" using eq by simp
  ultimately show ?thesis using set_map_filter_sub [of "nat M" best pairs] by blast
next
  case False
  show ?thesis
  proof (cases "pairs = []")
    case True
    then have "n = 0" "s1 = sink_init r" using call
      by (simp_all add: CollisionCheckAlgorithm_call_def)
    then have "n = int (length []) \<and> length [] \<le> length pairs
           \<and> set [] \<subseteq> {c. \<exists>p \<in> set pairs. best p = Some c}
           \<and> s1 = snd (addResults sw M (sink_init r) [])
           \<and> (length pairs < hardware_concurrency \<longrightarrow> n \<le> M)"
      using False by simp
    then show ?thesis by blast
  next
    case ne: False
    from call ne False have par: "parallel_for_each M body schedule pairs (sink_init r) = Some s1"
      and n: "n = sint (numResults s1)"
      by (auto simp: CollisionCheckAlgorithm_call_def Let_def split: option.splits)
    from par obtain phases1 where
      run: "fold (par_step M body pairs) schedule
              (Some (replicate (length pairs) Waiting, sink_init r)) = Some (phases1, s1)"
      by (auto simp: parallel_for_each_def split: option.splits if_splits)
    have "\<exists>adds1. s1 = snd (addResults sw M (sink_init r) adds1)
            \<and> length adds1 \<le> card (finished phases1)
            \<and> length phases1 = length (replicate (length pairs) Waiting)
            \<and> set adds1 \<subseteq> {c. \<exists>p \<in> set pairs. best p = Some c}"
      by (rule parallel_run_submissions [OF body run, of "sink_init r" "[]"]) simp_all
    then obtain adds where a: "s1 = snd (addResults sw M (sink_init r) adds)"
        "length adds \<le> card (finished phases1)" "length phases1 = length pairs"
        "set adds \<subseteq> {c. \<exists>p \<in> set pairs. best p = Some c}"
      by auto
    have l: "length adds \<le> length pairs"
      using a(2,3) finished_card [of phases1] by simp
    then have "length adds < 2 ^ 31" using len by simp
    then have "sint (of_nat (length adds) :: 32 word) = int (length adds)"
      by (rule sint_of_nat_32)
    then have "n = int (length adds)"
      using n a(1) addResults_counter [of sw M "sink_init r" adds] by (simp add: sink_init_def)
    with a l False show ?thesis by blast
  qed
qed

lemma submissions_stored:
  assumes "length adds < 2 ^ 31"
  shows "fst (addResults sw M (sink_init r) adds) = map (\<lambda>k. int k < M) [0 ..< length adds]"
    and "i < 0 \<or> min (int (length adds)) M \<le> i \<Longrightarrow>
           results (snd (addResults sw M (sink_init r) adds)) i = r i"
    and "int k < min (int (length adds)) M \<Longrightarrow>
           results (snd (addResults False M (sink_init r) adds)) (int k) = adds ! k"
proof -
  have init: "numResults (sink_init r) = of_nat 0" "results (sink_init r) = r"
    by (simp_all add: sink_init_def)
  have len: "0 + length adds \<le> 2 ^ 31" using assms by simp
  show "fst (addResults sw M (sink_init r) adds) = map (\<lambda>k. int k < M) [0 ..< length adds]"
    using addResults_flags [OF init(1) len, of sw M] by simp
  show "results (snd (addResults sw M (sink_init r) adds)) i = r i"
    if "i < 0 \<or> min (int (length adds)) M \<le> i"
  proof (cases "M \<le> i")
    case True
    then show ?thesis using addResults_beyond [of M i sw "sink_init r" adds] init(2) by simp
  next
    case False
    with that have "i < int 0 \<or> int (0 + length adds) \<le> i" by auto
    from addResults_outside [OF init(1) len this] init(2) show ?thesis by simp
  qed
  show "results (snd (addResults False M (sink_init r) adds)) (int k) = adds ! k"
    if "int k < min (int (length adds)) M"
    using addResults_plain_at [OF init(1) len, of k M] that by simp
qed

text \<open>
  Claim C4, as the code has it. On a fresh checker \<^verbatim>\<open>operator()\<close> returns the number
  of contacts submitted to the sink, accepted or not: there is a list \<open>adds\<close> of best
  contacts of coarse pairs, at most one per pair, in the order in which their slots were
  reserved, whose length is the value returned. Submission \<open>k\<close> was accepted iff
  \<open>k < MaxCollisionCount\<close>, so the contacts stored are the first
  \<open>min(returned, MaxCollisionCount)\<close> of them, in the slots of their indices, and no other
  memory has changed. When the pairs are processed sequentially (fewer pairs than
  hardware threads) the value returned does not exceed \<^verbatim>\<open>MaxCollisionCount\<close> and is
  the number of contacts stored.
\<close>

theorem operator_returns_submissions:
  assumes M: "0 \<le> M" "M < 2 ^ 31" and len: "length pairs < 2 ^ 31"
    and call: "CollisionCheckAlgorithm_call M
                 (func_CPURefactored cc sw M t0 init_box invalid_box)
                 (body_CPURefactored cc sw M t0 init_box invalid_box)
                 hardware_concurrency schedule pairs r = Some (n, s1)"
  shows "\<exists>adds. n = int (length adds) \<and> length adds \<le> length pairs
           \<and> set adds \<subseteq> {c. \<exists>p \<in> set pairs.
                  best_CPURefactored cc t0 init_box invalid_box (fst p) (snd p) = Some c}
           \<and> s1 = snd (addResults sw M (sink_init r) adds)
           \<and> fst (addResults sw M (sink_init r) adds) = map (\<lambda>k. int k < M) [0 ..< length adds]
           \<and> (\<forall>i. i < 0 \<or> min n M \<le> i \<longrightarrow> results s1 i = r i)
           \<and> (\<not> sw \<longrightarrow> (\<forall>k. int k < min n M \<longrightarrow> results s1 (int k) = adds ! k))
           \<and> (length pairs < hardware_concurrency \<longrightarrow> n \<le> M)"
proof -
  from call_submissions [OF M len func_CPURefactored_guarded body_CPURefactored_guarded call]
  obtain adds where a: "n = int (length adds)" "length adds \<le> length pairs"
      "set adds \<subseteq> {c. \<exists>p \<in> set pairs.
                  best_CPURefactored cc t0 init_box invalid_box (fst p) (snd p) = Some c}"
      "s1 = snd (addResults sw M (sink_init r) adds)"
      "length pairs < hardware_concurrency \<longrightarrow> n \<le> M"
    by blast
  have l: "length adds < 2 ^ 31" using a(2) len by simp
  note st = submissions_stored [OF l]
  have f: "fst (addResults sw M (sink_init r) adds) = map (\<lambda>k. int k < M) [0 ..< length adds]"
    by (rule st(1))
  have out: "\<forall>i. i < 0 \<or> min n M \<le> i \<longrightarrow> results s1 i = r i"
    using st(2) [of _ M sw r] a(1,4) by simp
  have at: "\<not> sw \<longrightarrow> (\<forall>k. int k < min n M \<longrightarrow> results s1 (int k) = adds ! k)"
    using st(3) [of _ M r] a(1,4) by simp
  show ?thesis using a f out at by blast
qed

lemma sample_parallel_call:
  "CollisionCheckAlgorithm_call 2
        (func_CPURefactored (sample_checkCollide (1 / 2)) False 2 (sample_contact 0) (sample_box 12 (- 1))
           (sample_box 12 (- 1)))
        (body_CPURefactored (sample_checkCollide (1 / 2)) False 2 (sample_contact 0) (sample_box 12 (- 1))
           (sample_box 12 (- 1)))
        2 [0, 0, 1, 2, 1, 2]
        [(sample_treeA, sample_treeB), (sample_treeA, sample_treeB), (sample_treeA, sample_treeB)]
        (\<lambda>i. sample_contact 0)
     = Some (3, \<lparr>numResults = 3,
                 results = (\<lambda>i. sample_contact 0)
                   (0 := \<lparr>posA = Vec3 (1 / 4) (1 / 4) (- 1 / 2),
                           posB = Vec3 (1 / 4) (1 / 4) (1 / 4), normOnB = Vec3 0 0 1,
                           colliderA = 0, colliderB = 11, depth = - 3 / 4\<rparr>,
                    1 := \<lparr>posA = Vec3 (1 / 4) (1 / 4) (- 1 / 2),
                           posB = Vec3 (1 / 4) (1 / 4) (1 / 4), normOnB = Vec3 0 0 1,
                           colliderA = 0, colliderB = 11, depth = - 3 / 4\<rparr>)\<rparr>)"
  by (simp add: CollisionCheckAlgorithm_call_def parallel_for_each_def par_step_def
      body_CPURefactored_best sample_best_CPURefactored sink_init_def addResult_def
      addResult_plain_def Let_def numeral_3_eq_3)

theorem operator_returns_submissions_witness:
  "(0::int) \<le> 2 \<and> (2::int) < 2 ^ 31
   \<and> length [(sample_treeA, sample_treeB), (sample_treeA, sample_treeB),
              (sample_treeA, sample_treeB)] < (2::nat) ^ 31
   \<and> map_option fst
       (CollisionCheckAlgorithm_call 2
          (func_CPURefactored (sample_checkCollide (1 / 2)) False 2 (sample_contact 0) (sample_box 12 (- 1))
             (sample_box 12 (- 1)))
          (body_CPURefactored (sample_checkCollide (1 / 2)) False 2 (sample_contact 0) (sample_box 12 (- 1))
             (sample_box 12 (- 1)))
          2 [0, 0, 1, 2, 1, 2]
          [(sample_treeA, sample_treeB), (sample_treeA, sample_treeB), (sample_treeA, sample_treeB)]
          (\<lambda>i. sample_contact 0)) = Some 3
   \<and> (\<exists>adds :: (real, nat) CollisionResult list.
         (3::int) = int (length adds)
         \<and> fst (addResults False 2 (sink_init (\<lambda>i. sample_contact 0)) adds)
             = [True, True, False])"
proof -
  have h: "(0::int) \<le> 2" "(2::int) < 2 ^ 31"
    "length [(sample_treeA, sample_treeB), (sample_treeA, sample_treeB),
              (sample_treeA, sample_treeB)] < (2::nat) ^ 31"
    by simp_all
  from operator_returns_submissions [OF h sample_parallel_call]
  obtain adds where a: "(3::int) = int (length adds)"
    "fst (addResults False 2 (sink_init (\<lambda>i. sample_contact 0)) adds)
       = map (\<lambda>k. int k < 2) [0 ..< length adds]"
    by blast
  from a(1) have "length adds = 3" by simp
  with a(2) have "fst (addResults False 2 (sink_init (\<lambda>i. sample_contact 0)) adds)
       = [True, True, False]"
    by (simp add: upt_rec)
  then have e: "\<exists>adds :: (real, nat) CollisionResult list.
         (3::int) = int (length adds)
         \<and> fst (addResults False 2 (sink_init (\<lambda>i. sample_contact 0)) adds)
             = [True, True, False]"
    using a(1) by blast
  have c: "map_option fst
       (CollisionCheckAlgorithm_call 2
          (func_CPURefactored (sample_checkCollide (1 / 2)) False 2 (sample_contact 0) (sample_box 12 (- 1))
             (sample_box 12 (- 1)))
          (body_CPURefactored (sample_checkCollide (1 / 2)) False 2 (sample_contact 0) (sample_box 12 (- 1))
             (sample_box 12 (- 1)))
          2 [0, 0, 1, 2, 1, 2]
          [(sample_treeA, sample_treeB), (sample_treeA, sample_treeB), (sample_treeA, sample_treeB)]
          (\<lambda>i. sample_contact 0)) = Some 3"
    unfolding sample_parallel_call by simp
  show ?thesis using h c e by blast
qed

text \<open>
  The claim C4 as stated fails on the parallel path. With \<^verbatim>\<open>MaxCollisionCount = 2\<close>,
  two hardware threads and three coarse pairs that each have a contact: the first call
  runs to its end, the second and the third both pass the guard while the counter is 1,
  and then both call \<^verbatim>\<open>addResult\<close>. The third submission is rejected, yet the counter,
  which \<^verbatim>\<open>operator()\<close> returns, is 3.
\<close>

theorem operator_parallel_overcount_counterexample:
  "map_option fst
     (CollisionCheckAlgorithm_call 2
        (func_CPURefactored (sample_checkCollide (1 / 2)) False 2 (sample_contact 0) (sample_box 12 (- 1))
           (sample_box 12 (- 1)))
        (body_CPURefactored (sample_checkCollide (1 / 2)) False 2 (sample_contact 0) (sample_box 12 (- 1))
           (sample_box 12 (- 1)))
        2 [0, 0, 1, 2, 1, 2]
        [(sample_treeA, sample_treeB), (sample_treeA, sample_treeB), (sample_treeA, sample_treeB)]
        (\<lambda>i. sample_contact 0))
     = Some 3
   \<and> \<not> (3::int) \<le> 2"
  by (simp add: CollisionCheckAlgorithm_call_def parallel_for_each_def par_step_def
      body_CPURefactored_best sample_best_CPURefactored sink_init_def addResult_def
      addResult_plain_def Let_def numeral_3_eq_3)

end
